theory Spec2Isabelle
  imports
    Main
    "HOL-Library.Word"
    "HOL-Library.AList"
    "HOL-Library.Char_ord"
    "HOL-Library.List_Lexorder"
begin

unbundle bit_operations_syntax

section \<open>Data model\<close>

text \<open>
  A Python \<open>bytes\<close> value is a list of 8-bit words. Python \<open>str\<close> values are
  modelled as \<open>string\<close>; the character tests of the strength checker are the
  ASCII ones.
\<close>

type_synonym byte = "8 word"
type_synonym bytes = "byte list"

text \<open>The exceptions that the modelled paths can raise.\<close>

datatype py_error = IndexError | ValueError | TypeError | OSError

text \<open>What a method hands back to its caller: \<open>None\<close> or a boolean.\<close>

datatype py_value = PyNone | PyBool bool

text \<open>A call either returns a value or lets an exception escape to the caller.\<close>

datatype 'a outcome = Returned 'a | Raised py_error

text \<open>
  The value stored under \<open>vault[service][username]\<close>: a dict with the four keys
  \<open>"password"\<close>, \<open>"url"\<close>, \<open>"notes"\<close> and \<open>"date_modified"\<close>.
\<close>

record entry =
  password :: string
  url :: string
  "notes" :: string
  date_modified :: string

text \<open>
  \<open>self.vault\<close> is a dict of dicts. Python dicts keep insertion order, so a dict is
  an association list: \<open>map_of\<close> is the lookup, \<open>AList.update\<close> is the item
  assignment (in place for an existing key, appended for a new one) and
  \<open>AList.delete\<close> is \<open>del\<close>.
\<close>

type_synonym users = "(string \<times> entry) list"
type_synonym vault = "(string \<times> users) list"

text \<open>
  The third-party and standard-library functions the class calls, taken as
  parameters: the AES block cipher under a key (the \<open>cryptography\<close> package),
  PBKDF2-HMAC-SHA256 with 100000 iterations and 32 bytes of output,
  \<open>json.dumps(v).encode('utf-8')\<close>, and \<open>json.loads(b.decode('utf-8'))\<close> where
  \<open>None\<close> stands for the decoding or parsing exception. Vault values are
  typed: keys and fields are strings, and a text that parses is taken to have
  the shape of a vault.
\<close>

record library =
  aes_encrypt_block :: "bytes \<Rightarrow> bytes \<Rightarrow> bytes"
  aes_decrypt_block :: "bytes \<Rightarrow> bytes \<Rightarrow> bytes"
  pbkdf2_hmac :: "string \<Rightarrow> bytes \<Rightarrow> bytes"
  json_dumps :: "vault \<Rightarrow> bytes"
  json_loads :: "bytes \<Rightarrow> vault option"

text \<open>The attributes of a \<open>PasswordManager\<close> object (the file path is fixed).\<close>

record pm_state =
  master_key :: "bytes option"
  vault :: vault
  salt :: "bytes option"
  iv :: "bytes option"
  initialized :: bool

text \<open>\<open>PasswordManager.__init__\<close>\<close>

definition init_state :: pm_state where
  "init_state =
     \<lparr>master_key = None, vault = [], salt = None, iv = None, initialized = False\<rparr>"

section \<open>Cipher codec\<close>

text \<open>Python's \<open>xs[:k]\<close> and \<open>xs[a:b]\<close> (for \<open>0 \<le> a\<close>, \<open>0 \<le> b\<close>).\<close>

definition slice_to :: "'a list \<Rightarrow> int \<Rightarrow> 'a list" where
  "slice_to xs k =
     (if k < 0 then take (nat (int (length xs) + k)) xs else take (nat k) xs)"

definition slice_from_to :: "'a list \<Rightarrow> nat \<Rightarrow> nat \<Rightarrow> 'a list" where
  "slice_from_to xs a b = take (b - a) (drop a xs)"

text \<open>\<open>PasswordManager._pad\<close>\<close>

definition pad :: "bytes \<Rightarrow> bytes" where
  "pad data =
     (let block_size = 16;
          padding_length = block_size - (length data mod block_size);
          padding = replicate padding_length (of_nat padding_length)
      in data @ padding)"

text \<open>
  \<open>PasswordManager._unpad\<close>: \<open>padded_data[-1]\<close> raises \<open>IndexError\<close> on the empty
  byte string; the slicing \<open>padded_data[:-padding_length]\<close> never raises.
\<close>

definition unpad :: "bytes \<Rightarrow> py_error + bytes" where
  "unpad padded_data =
     (if padded_data = [] then Inl IndexError
      else let padding_length = unat (last padded_data)
           in Inr (slice_to padded_data (- int padding_length)))"

text \<open>
  AES in CBC mode as the \<open>cryptography\<close> package computes it, over the block
  function of the key: each plaintext block is xored with the previous
  ciphertext block (the IV for the first) and then encrypted. The first
  argument counts the 16-byte blocks still to process.
\<close>

definition xor_bytes :: "bytes \<Rightarrow> bytes \<Rightarrow> bytes" where
  "xor_bytes a b = map2 (XOR) a b"

fun cbc_encrypt_blocks :: "(bytes \<Rightarrow> bytes) \<Rightarrow> nat \<Rightarrow> bytes \<Rightarrow> bytes \<Rightarrow> bytes" where
  "cbc_encrypt_blocks E 0 prev data = []"
| "cbc_encrypt_blocks E (Suc n) prev data =
     (let c = E (xor_bytes (take 16 data) prev)
      in c @ cbc_encrypt_blocks E n c (drop 16 data))"

fun cbc_decrypt_blocks :: "(bytes \<Rightarrow> bytes) \<Rightarrow> nat \<Rightarrow> bytes \<Rightarrow> bytes \<Rightarrow> bytes" where
  "cbc_decrypt_blocks D 0 prev data = []"
| "cbc_decrypt_blocks D (Suc n) prev data =
     (let c = take 16 data
      in xor_bytes (D c) prev @ cbc_decrypt_blocks D n c (drop 16 data))"

text \<open>
  \<open>Cipher(algorithms.AES(key), modes.CBC(iv))\<close>: a key that is not bytes
  (\<open>None\<close>) is a \<open>TypeError\<close>, a key of a length other than 16, 24 or 32 bytes
  and an IV of a length other than 16 bytes are a \<open>ValueError\<close>.
\<close>

definition cipher :: "bytes option \<Rightarrow> bytes option \<Rightarrow> py_error + (bytes \<times> bytes)" where
  "cipher key iv' =
     (case key of
        None \<Rightarrow> Inl TypeError
      | Some k \<Rightarrow>
          if length k \<noteq> 16 \<and> length k \<noteq> 24 \<and> length k \<noteq> 32 then Inl ValueError
          else (case iv' of
                  None \<Rightarrow> Inl TypeError
                | Some v \<Rightarrow> if length v \<noteq> 16 then Inl ValueError else Inr (k, v)))"

text \<open>
  \<open>update(data) + finalize()\<close> of an encryptor or decryptor: \<open>finalize\<close> raises
  \<open>ValueError\<close> when the data is not a whole number of blocks.
\<close>

definition update_finalize ::
  "((bytes \<Rightarrow> bytes) \<Rightarrow> nat \<Rightarrow> bytes \<Rightarrow> bytes \<Rightarrow> bytes) \<Rightarrow> (bytes \<Rightarrow> bytes) \<Rightarrow> bytes \<Rightarrow> bytes
     \<Rightarrow> py_error + bytes" where
  "update_finalize blocks F iv' data =
     (if length data mod 16 \<noteq> 0 then Inl ValueError
      else Inr (blocks F (length data div 16) iv' data))"

text \<open>\<open>PasswordManager._encrypt\<close>\<close>

definition encrypt :: "library \<Rightarrow> bytes \<Rightarrow> bytes option \<Rightarrow> bytes option \<Rightarrow> py_error + bytes" where
  "encrypt L data key iv' =
     (case cipher key iv' of
        Inl e \<Rightarrow> Inl e
      | Inr (k, v) \<Rightarrow>
          (let padded_data = pad data
           in update_finalize cbc_encrypt_blocks (aes_encrypt_block L k) v padded_data))"

text \<open>\<open>PasswordManager._decrypt\<close>\<close>

definition decrypt :: "library \<Rightarrow> bytes \<Rightarrow> bytes option \<Rightarrow> bytes option \<Rightarrow> py_error + bytes" where
  "decrypt L encrypted_data key iv' =
     (case cipher key iv' of
        Inl e \<Rightarrow> Inl e
      | Inr (k, v) \<Rightarrow>
          (case update_finalize cbc_decrypt_blocks (aes_decrypt_block L k) v encrypted_data of
             Inl e \<Rightarrow> Inl e
           | Inr padded_data \<Rightarrow> unpad padded_data))"

text \<open>
  What the class relies on from the block cipher under key \<open>k\<close>: blocks are 16
  bytes and decryption undoes encryption.
\<close>

definition block_cipher_ok :: "library \<Rightarrow> bytes \<Rightarrow> bool" where
  "block_cipher_ok L k \<longleftrightarrow>
     (\<forall>b. length b = 16 \<longrightarrow>
        length (aes_encrypt_block L k b) = 16 \<and>
        aes_decrypt_block L k (aes_encrypt_block L k b) = b)"

section \<open>Credential generator\<close>

text \<open>The constants of Python's \<open>string\<close> module.\<close>

definition ascii_uppercase :: string where
  "ascii_uppercase = ''ABCDEFGHIJKLMNOPQRSTUVWXYZ''"

definition ascii_lowercase :: string where
  "ascii_lowercase = ''abcdefghijklmnopqrstuvwxyz''"

definition ascii_letters :: string where
  "ascii_letters = ascii_lowercase @ ascii_uppercase"

definition digits :: string where
  "digits = ''0123456789''"

text \<open>
  \<open>string.punctuation\<close>: the 32 ASCII punctuation characters in code order
  (33 to 47, 58 to 64, 91 to 96 and 123 to 126).
\<close>

definition punctuation :: string where
  "punctuation = map char_of ([33..<48] @ [58..<65] @ [91..<97] @ [123..<127] :: nat list)"

text \<open>
  \<open>secrets.choice(chars)\<close> is \<open>chars[randbelow(len(chars))]\<close>. The entropy source
  is a parameter \<open>rnd\<close>: the \<open>i\<close>-th draw below \<open>n\<close> is \<open>rnd i mod n\<close>, which
  covers every possible outcome of \<open>randbelow\<close>.
\<close>

definition choice :: "(nat \<Rightarrow> nat) \<Rightarrow> nat \<Rightarrow> string \<Rightarrow> char" where
  "choice rnd i chars = chars ! (rnd i mod length chars)"

text \<open>\<open>PasswordManager.generate_password\<close>; \<open>range(length)\<close> is empty for \<open>length \<le> 0\<close>.\<close>

definition generate_password ::
  "(nat \<Rightarrow> nat) \<Rightarrow> int \<Rightarrow> bool \<Rightarrow> bool \<Rightarrow> bool \<Rightarrow> bool \<Rightarrow> string" where
  "generate_password rnd len include_uppercase include_lowercase include_digits include_special =
     (let chars = [];
          chars = (if include_uppercase then chars @ ascii_uppercase else chars);
          chars = (if include_lowercase then chars @ ascii_lowercase else chars);
          chars = (if include_digits then chars @ digits else chars);
          chars = (if include_special then chars @ punctuation else chars);
          chars = (if chars = [] then ascii_letters @ digits @ punctuation else chars)
      in map (\<lambda>i. choice rnd i chars) [0..<nat len])"

section \<open>Vault store\<close>

text \<open>
  The container file is \<open>None\<close> when the path does not exist and \<open>Some b\<close> when
  it holds the bytes \<open>b\<close>. How the operating system answers a write is a
  parameter: the \<open>open(..., "wb")\<close> fails and leaves the file alone, or it
  succeeds (truncating the file) and the write then either completes or fails
  after some number of bytes reached the file.
\<close>

datatype write_result = WriteOk | OpenFails | WriteFails nat

datatype read_result = ReadOk | ReadFails

text \<open>
  \<open>PasswordManager._derive_key\<close>: the KDF object rejects a salt that is not bytes
  (a \<open>None\<close> salt) with \<open>TypeError\<close>.
\<close>

definition derive_key :: "library \<Rightarrow> string \<Rightarrow> bytes option \<Rightarrow> py_error + bytes" where
  "derive_key L pw salt' =
     (case salt' of None \<Rightarrow> Inl TypeError | Some sa \<Rightarrow> Inr (pbkdf2_hmac L pw sa))"

text \<open>
  \<open>PasswordManager.save_vault\<close>. Inside the \<open>try\<close>: serialise, encrypt, open the
  file for writing, then build \<open>self.salt + self.iv + encrypted_data\<close> (a
  \<open>TypeError\<close> when one of them is \<open>None\<close>) and write it. Every exception
  becomes the result \<open>False\<close>. No attribute of the object is assigned.
\<close>

definition save_vault ::
  "library \<Rightarrow> write_result \<Rightarrow> pm_state \<Rightarrow> bytes option \<Rightarrow> bool \<times> pm_state \<times> bytes option" where
  "save_vault L io s file =
     (if \<not> initialized s then (False, s, file)
      else
        let vault_json = json_dumps L (vault s)
        in case encrypt L vault_json (master_key s) (iv s) of
             Inl e \<Rightarrow> (False, s, file)
           | Inr encrypted_data \<Rightarrow>
               (case io of
                  OpenFails \<Rightarrow> (False, s, file)
                | WriteOk \<Rightarrow>
                    (case (salt s, iv s) of
                       (Some sa, Some v) \<Rightarrow> (True, s, Some (sa @ v @ encrypted_data))
                     | _ \<Rightarrow> (False, s, Some []))
                | WriteFails n \<Rightarrow>
                    (case (salt s, iv s) of
                       (Some sa, Some v) \<Rightarrow> (False, s, Some (take n (sa @ v @ encrypted_data)))
                     | _ \<Rightarrow> (False, s, Some []))))"

text \<open>
  \<open>PasswordManager._create_new_vault\<close>; \<open>rnd_salt\<close> and \<open>rnd_iv\<close> are the two
  results of \<open>os.urandom(16)\<close>. The result of \<open>save_vault\<close> is dropped.
\<close>

definition create_new_vault ::
  "library \<Rightarrow> bytes \<Rightarrow> bytes \<Rightarrow> write_result \<Rightarrow> string \<Rightarrow> pm_state \<Rightarrow> bytes option
     \<Rightarrow> pm_state \<times> bytes option" where
  "create_new_vault L rnd_salt rnd_iv io master_password s file =
     (let s = s\<lparr>salt := Some rnd_salt\<rparr>;
          s = s\<lparr>iv := Some rnd_iv\<rparr>;
          s = s\<lparr>master_key := Some (pbkdf2_hmac L master_password rnd_salt)\<rparr>;
          s = s\<lparr>vault := []\<rparr>;
          s = s\<lparr>initialized := True\<rparr>;
          (ok, s, file) = save_vault L io s file
      in (s, file))"

text \<open>
  \<open>PasswordManager._load_vault\<close>: every exception of the body is caught, sets
  \<open>initialized\<close> to \<open>False\<close> and gives the result \<open>False\<close>.
\<close>

definition load_vault :: "library \<Rightarrow> bytes \<Rightarrow> string \<Rightarrow> pm_state \<Rightarrow> bool \<times> pm_state" where
  "load_vault L encrypted_data master_password s =
     (let salt_iv = slice_from_to encrypted_data 0 32;
          s = s\<lparr>salt := Some (slice_from_to salt_iv 0 16)\<rparr>;
          s = s\<lparr>iv := Some (slice_from_to salt_iv 16 32)\<rparr>
      in case derive_key L master_password (salt s) of
           Inl e \<Rightarrow> (False, s\<lparr>initialized := False\<rparr>)
         | Inr key \<Rightarrow>
             (let s = s\<lparr>master_key := Some key\<rparr>;
                  cipher_text = drop 32 encrypted_data
              in case decrypt L cipher_text (master_key s) (iv s) of
                   Inl e \<Rightarrow> (False, s\<lparr>initialized := False\<rparr>)
                 | Inr decrypted_data \<Rightarrow>
                     (case json_loads L decrypted_data of
                        None \<Rightarrow> (False, s\<lparr>initialized := False\<rparr>)
                      | Some v \<Rightarrow> (True, s\<lparr>vault := v, initialized := True\<rparr>))))"

text \<open>
  \<open>PasswordManager.initialize\<close>. The method has no \<open>return\<close> statement: it
  returns \<open>None\<close> on every path that returns, and the results of \<open>_load_vault\<close>
  and \<open>_create_new_vault\<close> are dropped. Opening and reading the file happen
  outside any \<open>try\<close>, so an I/O error there escapes to the caller.
\<close>

definition initialize ::
  "library \<Rightarrow> bytes \<Rightarrow> bytes \<Rightarrow> read_result \<Rightarrow> write_result \<Rightarrow> string \<Rightarrow> pm_state \<Rightarrow> bytes option
     \<Rightarrow> py_value outcome \<times> pm_state \<times> bytes option" where
  "initialize L rnd_salt rnd_iv rd io master_password s file =
     (case file of
        Some content \<Rightarrow>
          (case rd of
             ReadFails \<Rightarrow> (Raised OSError, s, file)
           | ReadOk \<Rightarrow>
               (let encrypted_data = content
                in if length encrypted_data = 0 then
                     (let (s, file) = create_new_vault L rnd_salt rnd_iv io master_password s file
                      in (Returned PyNone, s, file))
                   else
                     (let (ok, s) = load_vault L encrypted_data master_password s
                      in (Returned PyNone, s, file))))
      | None \<Rightarrow>
          (let (s, file) = create_new_vault L rnd_salt rnd_iv io master_password s file
           in (Returned PyNone, s, file)))"

text \<open>
  \<open>PasswordManager.add_password\<close>; \<open>today\<close> is the result of
  \<open>_get_current_date()\<close>. An absent password is generated with the default
  policy.
\<close>

definition add_password ::
  "library \<Rightarrow> (nat \<Rightarrow> nat) \<Rightarrow> string \<Rightarrow> write_result \<Rightarrow> string \<Rightarrow> string \<Rightarrow> string option \<Rightarrow> string
     \<Rightarrow> string \<Rightarrow> pm_state \<Rightarrow> bytes option \<Rightarrow> bool \<times> pm_state \<times> bytes option" where
  "add_password L rnd today io service username pw url' notes' s file =
     (if \<not> initialized s then (False, s, file)
      else
        let pw = (case pw of None \<Rightarrow> generate_password rnd 16 True True True True | Some p \<Rightarrow> p);
            s = (if map_of (vault s) service = None
                 then s\<lparr>vault := AList.update service [] (vault s)\<rparr> else s);
            e = \<lparr>password = pw, url = url', notes = notes', date_modified = today\<rparr>;
            s = (case map_of (vault s) service of
                   Some m \<Rightarrow> s\<lparr>vault := AList.update service (AList.update username e m) (vault s)\<rparr>
                 | None \<Rightarrow> s)
        in save_vault L io s file)"

text \<open>\<open>PasswordManager.get_password\<close>\<close>

definition get_password :: "pm_state \<Rightarrow> string \<Rightarrow> string \<Rightarrow> entry option" where
  "get_password s service username =
     (if \<not> initialized s then None
      else case map_of (vault s) service of
             Some m \<Rightarrow> (case map_of m username of Some e \<Rightarrow> Some e | None \<Rightarrow> None)
           | None \<Rightarrow> None)"

text \<open>\<open>PasswordManager.remove_password\<close>\<close>

definition remove_password ::
  "library \<Rightarrow> write_result \<Rightarrow> string \<Rightarrow> string option \<Rightarrow> pm_state \<Rightarrow> bytes option
     \<Rightarrow> bool \<times> pm_state \<times> bytes option" where
  "remove_password L io service username s file =
     (if \<not> initialized s then (False, s, file)
      else case map_of (vault s) service of
             Some m \<Rightarrow>
               (case username of
                  None \<Rightarrow> save_vault L io (s\<lparr>vault := AList.delete service (vault s)\<rparr>) file
                | Some u \<Rightarrow>
                    if map_of m u \<noteq> None then
                      (let m = AList.delete u m;
                           s = s\<lparr>vault := AList.update service m (vault s)\<rparr>;
                           s = (if m = [] then s\<lparr>vault := AList.delete service (vault s)\<rparr> else s)
                       in save_vault L io s file)
                    else (False, s, file))
           | None \<Rightarrow> (False, s, file))"



section \<open>Master password rotation\<close>

text \<open>
  \<open>PasswordManager._secure_compare\<close>: \<open>secrets.compare_digest\<close> returns whether
  the two byte strings are equal and raises \<open>TypeError\<close> when one is \<open>None\<close>.
  Its running time is not modelled.
\<close>

definition secure_compare :: "bytes \<Rightarrow> bytes option \<Rightarrow> py_error + bool" where
  "secure_compare a b = (case b of None \<Rightarrow> Inl TypeError | Some b' \<Rightarrow> Inr (a = b'))"

text \<open>
  \<open>PasswordManager.change_master_password\<close>; \<open>new_salt\<close> is the result of
  \<open>os.urandom(16)\<close>. Every exception of the body gives the result \<open>False\<close>.
\<close>

definition change_master_password ::
  "library \<Rightarrow> bytes \<Rightarrow> write_result \<Rightarrow> string \<Rightarrow> string \<Rightarrow> pm_state \<Rightarrow> bytes option
     \<Rightarrow> bool \<times> pm_state \<times> bytes option" where
  "change_master_password L new_salt io current_password new_master_password s file =
     (if \<not> initialized s then (False, s, file)
      else case derive_key L current_password (salt s) of
             Inl e \<Rightarrow> (False, s, file)
           | Inr test_key \<Rightarrow>
               (case secure_compare test_key (master_key s) of
                  Inl e \<Rightarrow> (False, s, file)
                | Inr False \<Rightarrow> (False, s, file)
                | Inr True \<Rightarrow>
                    (case derive_key L new_master_password (Some new_salt) of
                       Inl e \<Rightarrow> (False, s, file)
                     | Inr new_key \<Rightarrow>
                         (let old_salt = salt s;
                              old_key = master_key s;
                              s = s\<lparr>salt := Some new_salt\<rparr>;
                              s = s\<lparr>master_key := Some new_key\<rparr>;
                              (ok, s, file) = save_vault L io s file
                          in if ok then (True, s, file)
                             else (let s = s\<lparr>salt := old_salt\<rparr>;
                                       s = s\<lparr>master_key := old_key\<rparr>
                                   in (False, s, file))))))"

section \<open>Strength scorer\<close>

text \<open>
  \<open>str.islower\<close>, \<open>isupper\<close>, \<open>isdigit\<close>, \<open>isalnum\<close> and \<open>lower\<close> on an ASCII
  character. Python's tests follow the Unicode categories; passwords with
  characters outside ASCII are outside this model.
\<close>

definition islower :: "char \<Rightarrow> bool" where
  "islower c = (let n = (of_char c :: nat) in 97 \<le> n \<and> n \<le> 122)"

definition isupper :: "char \<Rightarrow> bool" where
  "isupper c = (let n = (of_char c :: nat) in 65 \<le> n \<and> n \<le> 90)"

definition isdigit :: "char \<Rightarrow> bool" where
  "isdigit c = (let n = (of_char c :: nat) in 48 \<le> n \<and> n \<le> 57)"

definition isalnum :: "char \<Rightarrow> bool" where
  "isalnum c = (islower c \<or> isupper c \<or> isdigit c)"

definition lower :: "char \<Rightarrow> char" where
  "lower c = (if isupper c then char_of (of_char c + (32 :: nat)) else c)"

text \<open>The substring test \<open>sub in s\<close> of Python strings.\<close>

fun contains :: "string \<Rightarrow> string \<Rightarrow> bool" where
  "contains sub [] = (sub = [])"
| "contains sub (c # cs) = (take (length sub) (c # cs) = sub \<or> contains sub cs)"

text \<open>
  \<open>re.search(r'(.)\\1{2,}', password)\<close>. The pattern is a raw string whose
  characters are \<open>( . ) \ \ 1 { 2 , }\<close>: a group matching any character but a
  newline, then an escaped (literal) backslash, then the character \<open>1\<close> two or
  more times. There is a match exactly when some position holds a character
  other than newline followed by a backslash and two \<open>1\<close>s.
\<close>

fun re_search_repeat :: "string \<Rightarrow> bool" where
  "re_search_repeat (c # b # d # e # rest) =
     ((c \<noteq> CHR 0x0A \<and> b = CHR 0x5C \<and> d = CHR ''1'' \<and> e = CHR ''1'')
      \<or> re_search_repeat (b # d # e # rest))"
| "re_search_repeat _ = False"

definition sequences :: "string list" where
  "sequences = [''abcdefghijklmnopqrstuvwxyz'', ''0123456789'']"

text \<open>
  The inner loop over \<open>i\<close> for one sequence: whether some \<open>seq[i:i + 3]\<close> occurs
  in \<open>password.lower()\<close> (the loop stops at the first hit).
\<close>

definition seq_found :: "string \<Rightarrow> string \<Rightarrow> bool" where
  "seq_found seq pw =
     list_ex (\<lambda>i. contains (slice_from_to seq i (i + 3)) (map lower pw)) [0..<length seq - 2]"

text \<open>The loop over \<open>sequences\<close>, threading the score and the feedback.\<close>

fun sequential_check :: "string list \<Rightarrow> string \<Rightarrow> int \<times> string list \<Rightarrow> int \<times> string list" where
  "sequential_check [] pw (score, feedback) = (score, feedback)"
| "sequential_check (seq # seqs) pw (score, feedback) =
     (if seq_found seq pw
      then sequential_check seqs pw (score - 10, feedback @ [''Avoid sequential characters''])
      else sequential_check seqs pw (score, feedback))"

text \<open>\<open>check_password_strength\<close>\<close>

definition check_password_strength :: "string \<Rightarrow> int \<times> string \<times> string list" where
  "check_password_strength pw =
     (let score = (0 :: int);
          feedback = [];
          (score, feedback) =
            (if length pw < 8
             then (score, feedback @ [''Password is too short (at least 8 characters recommended)''])
             else if length pw \<ge> 12 then (score + 25, feedback)
             else if length pw \<ge> 8 then (score + 15, feedback)
             else (score, feedback));
          has_lowercase = list_ex islower pw;
          has_uppercase = list_ex isupper pw;
          has_digits = list_ex isdigit pw;
          has_special = list_ex (\<lambda>c. \<not> isalnum c) pw;
          variety_score = (0 :: int);
          (variety_score, feedback) =
            (if has_lowercase then (variety_score + 10, feedback)
             else (variety_score, feedback @ [''Add lowercase letters'']));
          (variety_score, feedback) =
            (if has_uppercase then (variety_score + 10, feedback)
             else (variety_score, feedback @ [''Add uppercase letters'']));
          (variety_score, feedback) =
            (if has_digits then (variety_score + 10, feedback)
             else (variety_score, feedback @ [''Add numbers'']));
          (variety_score, feedback) =
            (if has_special then (variety_score + 10, feedback)
             else (variety_score, feedback @ [''Add special characters'']));
          score = score + variety_score;
          (score, feedback) =
            (if re_search_repeat pw
             then (score - 10, feedback @ [''Avoid repeating characters''])
             else (score, feedback));
          (score, feedback) = sequential_check sequences pw (score, feedback);
          score = (if length pw > 16 then score + 10 else score);
          score = (if has_lowercase \<and> has_uppercase \<and> has_digits \<and> has_special
                   then score + 15 else score);
          score = max 0 (min 100 score);
          strength_text =
            (if score \<le> 25 then ''Very Weak''
             else if score \<le> 50 then ''Weak''
             else if score \<le> 75 then ''Medium''
             else ''Strong'')
      in (score, strength_text, feedback))"

section \<open>Properties of sessions and containers\<close>


text \<open>
  The ways the body of \<open>_load_vault\<close> fails on the bytes of a container: the
  decryption of everything after the 32-byte header raises, or its result does
  not decode and parse.
\<close>

definition load_fails :: "library \<Rightarrow> bytes \<Rightarrow> string \<Rightarrow> bool" where
  "load_fails L content master_password =
     (let sa = slice_from_to (slice_from_to content 0 32) 0 16;
          v = slice_from_to (slice_from_to content 0 32) 16 32
      in case decrypt L (drop 32 content) (Some (pbkdf2_hmac L master_password sa)) (Some v) of
           Inl e \<Rightarrow> True
         | Inr decrypted_data \<Rightarrow> json_loads L decrypted_data = None)"

text \<open>Whether a password derives the key of the session from the salt of the session.\<close>

definition password_matches :: "library \<Rightarrow> string \<Rightarrow> pm_state \<Rightarrow> bool" where
  "password_matches L pw s =
     (case (salt s, master_key s) of
        (Some sa, Some k) \<Rightarrow> pbkdf2_hmac L pw sa = k
      | _ \<Rightarrow> False)"

text \<open>The bytes a successful \<open>save_vault\<close> puts into the container.\<close>

definition container_of :: "library \<Rightarrow> pm_state \<Rightarrow> bytes option" where
  "container_of L s =
     (case (salt s, iv s, encrypt L (json_dumps L (vault s)) (master_key s) (iv s)) of
        (Some sa, Some v, Inr encrypted_data) \<Rightarrow> Some (sa @ v @ encrypted_data)
      | _ \<Rightarrow> None)"

section \<open>A small instance of the library interface\<close>

text \<open>
  Concrete stand-ins for the library functions, used to run the model on
  explicit inputs: a block function that adds the first 16 key bytes to the
  block, a key derivation that lays out password and salt in 32 bytes, and a
  length-prefixed serialisation of vaults.
\<close>

definition toy_encrypt_block :: "bytes \<Rightarrow> bytes \<Rightarrow> bytes" where
  "toy_encrypt_block k b = map2 (+) b (take 16 k)"

definition toy_decrypt_block :: "bytes \<Rightarrow> bytes \<Rightarrow> bytes" where
  "toy_decrypt_block k b = map2 (-) b (take 16 k)"

definition toy_kdf :: "string \<Rightarrow> bytes \<Rightarrow> bytes" where
  "toy_kdf pw sa = take 32 (map (\<lambda>c. of_nat (of_char c)) pw @ sa @ replicate 32 0)"

definition toy_str :: "string \<Rightarrow> bytes" where
  "toy_str x = of_nat (length x) # map (\<lambda>c. of_nat (of_char c)) x"

definition toy_entry :: "entry \<Rightarrow> bytes" where
  "toy_entry e = toy_str (password e) @ toy_str (url e) @ toy_str (notes e) @ toy_str (date_modified e)"

definition toy_users :: "users \<Rightarrow> bytes" where
  "toy_users m = of_nat (length m) # concat (map (\<lambda>(u, e). toy_str u @ toy_entry e) m)"

definition toy_dumps :: "vault \<Rightarrow> bytes" where
  "toy_dumps v = of_nat (length v) # concat (map (\<lambda>(service, m). toy_str service @ toy_users m) v)"

definition toy_unstr :: "bytes \<Rightarrow> (string \<times> bytes) option" where
  "toy_unstr b =
     (case b of
        [] \<Rightarrow> None
      | n # rest \<Rightarrow>
          if length rest < unat n then None
          else Some (map (\<lambda>w. char_of (unat w)) (take (unat n) rest), drop (unat n) rest))"

definition toy_unentry :: "bytes \<Rightarrow> (entry \<times> bytes) option" where
  "toy_unentry b =
     (case toy_unstr b of None \<Rightarrow> None | Some (p, b) \<Rightarrow>
     (case toy_unstr b of None \<Rightarrow> None | Some (u, b) \<Rightarrow>
     (case toy_unstr b of None \<Rightarrow> None | Some (n, b) \<Rightarrow>
     (case toy_unstr b of None \<Rightarrow> None | Some (d, b) \<Rightarrow>
        Some (\<lparr>password = p, url = u, notes = n, date_modified = d\<rparr>, b)))))"

fun toy_unusers_n :: "nat \<Rightarrow> bytes \<Rightarrow> (users \<times> bytes) option" where
  "toy_unusers_n 0 b = Some ([], b)"
| "toy_unusers_n (Suc n) b =
     (case toy_unstr b of None \<Rightarrow> None | Some (u, b) \<Rightarrow>
     (case toy_unentry b of None \<Rightarrow> None | Some (e, b) \<Rightarrow>
     (case toy_unusers_n n b of None \<Rightarrow> None | Some (m, b) \<Rightarrow> Some ((u, e) # m, b))))"

definition toy_unusers :: "bytes \<Rightarrow> (users \<times> bytes) option" where
  "toy_unusers b = (case b of [] \<Rightarrow> None | n # rest \<Rightarrow> toy_unusers_n (unat n) rest)"

fun toy_unvault_n :: "nat \<Rightarrow> bytes \<Rightarrow> (vault \<times> bytes) option" where
  "toy_unvault_n 0 b = Some ([], b)"
| "toy_unvault_n (Suc n) b =
     (case toy_unstr b of None \<Rightarrow> None | Some (service, b) \<Rightarrow>
     (case toy_unusers b of None \<Rightarrow> None | Some (m, b) \<Rightarrow>
     (case toy_unvault_n n b of None \<Rightarrow> None | Some (v, b) \<Rightarrow> Some ((service, m) # v, b))))"

definition toy_loads :: "bytes \<Rightarrow> vault option" where
  "toy_loads b =
     (case b of
        [] \<Rightarrow> None
      | n # rest \<Rightarrow>
          (case toy_unvault_n (unat n) rest of
             Some (v, []) \<Rightarrow> Some v
           | _ \<Rightarrow> None))"

definition toy_lib :: library where
  "toy_lib =
     \<lparr>aes_encrypt_block = toy_encrypt_block, aes_decrypt_block = toy_decrypt_block,
      pbkdf2_hmac = toy_kdf, json_dumps = toy_dumps, json_loads = toy_loads\<rparr>"

text \<open>The inputs of the worked examples.\<close>

definition ex_salt :: bytes where
  "ex_salt = [1, 2, 3, 4, 5, 6, 7, 8, 9, 10, 11, 12, 13, 14, 15, 16]"

definition ex_iv :: bytes where
  "ex_iv = [16, 15, 14, 13, 12, 11, 10, 9, 8, 7, 6, 5, 4, 3, 2, 1]"

definition ex_entry :: entry where
  "ex_entry = \<lparr>password = ''P@ssw0rd1'', url = [], notes = [], date_modified = ''2024-01-01''\<rparr>"

definition ex_state :: pm_state where
  "ex_state =
     \<lparr>master_key = Some (toy_kdf ''correct-horse'' ex_salt),
      vault = [(''github'', [(''alice'', ex_entry)])],
      salt = Some ex_salt, iv = Some ex_iv, initialized = True\<rparr>"

text \<open>The container that a completed save of \<open>ex_state\<close> writes under \<open>toy_lib\<close>.\<close>

definition ex_container :: bytes where
  "ex_container =
     ex_salt @ ex_iv @
       [116, 120, 219, 214, 221, 198, 243, 152, 113, 113, 217, 220, 210, 97, 105, 11,
        135, 167, 26, 23, 15, 89, 245, 41, 168, 224, 75, 73, 69, 82, 93, 66,
        13, 6, 157, 172, 164, 203, 115, 80, 10, 89, 179, 182, 180, 89, 89, 75]"

text \<open>
  The session that \<open>change_master_password\<close> holds between the swap and the
  save: the new salt and the key derived from the new password and that salt.
\<close>

definition rotated :: "library \<Rightarrow> bytes \<Rightarrow> string \<Rightarrow> pm_state \<Rightarrow> pm_state" where
  "rotated L new_salt new_master_password s =
     s\<lparr>salt := Some new_salt, master_key := Some (pbkdf2_hmac L new_master_password new_salt)\<rparr>"

text \<open>
  The container of \<open>ex_state\<close> after a rotation to the password \<open>new-pass\<close> with
  the new salt \<open>ex_iv\<close>, under \<open>toy_lib\<close>.
\<close>

definition ex_rotated_container :: bytes where
  "ex_rotated_container =
     ex_iv @ ex_iv @
       [127, 110, 224, 145, 232, 196, 242, 222, 25, 17, 117, 118, 121, 107, 113, 17,
        157, 147, 10, 15, 15, 85, 243, 45, 56, 32, 131, 137, 87, 102, 77, 46,
        30, 8, 178, 79, 175, 197, 108, 154, 66, 57, 151, 144, 105, 119, 81, 45]"


section \<open>Padding and the cipher codec\<close>

lemma pad_shape:
  "\<exists>n. 1 \<le> n \<and> n \<le> 16 \<and> pad d = d @ replicate n (of_nat n)"
  by (rule exI [of _ "16 - length d mod 16"]) (simp add: pad_def Let_def)

lemma pad_length_mod: "length (pad d) mod 16 = 0"
proof -
  have "(length d + (16 - length d mod 16)) mod 16 = 0"
    by presburger
  then show ?thesis by (simp add: pad_def Let_def)
qed

lemma unpad_pad: "unpad (pad d) = Inr d"
proof -
  define k where "k = 16 - length d mod 16"
  have k: "0 < k" "k \<le> 16" by (simp_all add: k_def)
  have p: "pad d = d @ replicate k (of_nat k)"
    by (simp add: pad_def Let_def k_def)
  have u: "unat (of_nat k :: byte) = k"
    using k by (simp add: unat_of_nat)
  have l: "last (pad d) = of_nat k"
    using k by (simp add: p)
  show ?thesis
    using k by (simp add: unpad_def l u Let_def slice_to_def) (simp add: p)
qed

lemma unpad_empty: "unpad [] = Inl IndexError"
  by (simp add: unpad_def)

lemma unpad_last_zero: "d \<noteq> [] \<Longrightarrow> last d = 0 \<Longrightarrow> unpad d = Inr []"
  by (simp add: unpad_def slice_to_def)

lemma length_xor_bytes: "length (xor_bytes a b) = min (length a) (length b)"
  by (simp add: xor_bytes_def)

lemma xor_bytes_cancel: "length a = length b \<Longrightarrow> xor_bytes (xor_bytes a b) b = a"
  unfolding xor_bytes_def
  by (induction a b rule: list_induct2) (simp_all add: xor.assoc)

lemma cbc_roundtrip:
  assumes E: "\<And>b. length b = 16 \<Longrightarrow> length (E b) = 16 \<and> D (E b) = b"
  shows "length prev = 16 \<Longrightarrow> length data = 16 * n \<Longrightarrow>
         cbc_decrypt_blocks D n prev (cbc_encrypt_blocks E n prev data) = data"
proof (induction n arbitrary: prev data)
  case 0
  then show ?case by simp
next
  case (Suc n)
  let ?p = "xor_bytes (take 16 data) prev"
  let ?c = "E ?p"
  have lp: "length ?p = 16" using Suc.prems by (simp add: length_xor_bytes)
  have lc: "length ?c = 16" and dc: "D ?c = ?p" using E [OF lp] by simp_all
  have x: "xor_bytes ?p prev = take 16 data"
    using Suc.prems by (intro xor_bytes_cancel) simp
  have ih: "cbc_decrypt_blocks D n ?c (cbc_encrypt_blocks E n ?c (drop 16 data)) = drop 16 data"
    using Suc.prems lc by (intro Suc.IH) simp_all
  show ?case
    by (simp add: Let_def lc dc x ih)
qed

lemma cbc_encrypt_length:
  assumes E: "\<And>b. length b = 16 \<Longrightarrow> length (E b) = 16"
  shows "length prev = 16 \<Longrightarrow> length data = 16 * n \<Longrightarrow>
         length (cbc_encrypt_blocks E n prev data) = 16 * n"
proof (induction n arbitrary: prev data)
  case 0
  then show ?case by simp
next
  case (Suc n)
  let ?p = "xor_bytes (take 16 data) prev"
  have lp: "length ?p = 16" using Suc.prems by (simp add: length_xor_bytes)
  have lc: "length (E ?p) = 16" using E [OF lp] .
  have "length (cbc_encrypt_blocks E n (E ?p) (drop 16 data)) = 16 * n"
    using Suc.prems lc by (intro Suc.IH) simp_all
  then show ?case by (simp add: Let_def lc)
qed

lemma cipher_valid:
  "length k = 32 \<Longrightarrow> length v = 16 \<Longrightarrow> cipher (Some k) (Some v) = Inr (k, v)"
  by (simp add: cipher_def)

lemma encrypt_valid:
  assumes "length k = 32" and "length v = 16"
  shows "encrypt L P (Some k) (Some v) =
           Inr (cbc_encrypt_blocks (aes_encrypt_block L k) (length (pad P) div 16) v (pad P))"
  using assms by (simp add: encrypt_def cipher_valid update_finalize_def pad_length_mod)

lemma encrypt_length:
  assumes "block_cipher_ok L k" and "length k = 32" and "length v = 16"
    and "encrypt L P (Some k) (Some v) = Inr c"
  shows "length c = length (pad P)"
proof -
  have m: "length (pad P) = 16 * (length (pad P) div 16)"
    using pad_length_mod [of P] by presburger
  have "length (cbc_encrypt_blocks (aes_encrypt_block L k) (length (pad P) div 16) v (pad P))
          = 16 * (length (pad P) div 16)"
    using assms(1,3) m by (intro cbc_encrypt_length) (simp_all add: block_cipher_ok_def)
  then show ?thesis
    using assms(2-4) m by (simp add: encrypt_valid)
qed

lemma decrypt_encrypt:
  assumes ok: "block_cipher_ok L k" and k: "length k = 32" and v: "length v = 16"
    and c: "encrypt L P (Some k) (Some v) = Inr c"
  shows "decrypt L c (Some k) (Some v) = Inr P"
proof -
  let ?n = "length (pad P) div 16"
  have m: "length (pad P) = 16 * ?n"
    using pad_length_mod [of P] by presburger
  have cdef: "c = cbc_encrypt_blocks (aes_encrypt_block L k) ?n v (pad P)"
    using c k v by (simp add: encrypt_valid)
  have lc: "length c = 16 * ?n"
    using encrypt_length [OF ok k v c] m by simp
  have rt: "cbc_decrypt_blocks (aes_decrypt_block L k) ?n v c = pad P"
    unfolding cdef using ok v m by (intro cbc_roundtrip) (simp_all add: block_cipher_ok_def)
  show ?thesis
    using k v lc rt by (simp add: decrypt_def cipher_valid update_finalize_def unpad_pad)
qed

text \<open>
  C3. For a 32-byte key, a 16-byte IV and a plaintext of any length, encryption
  succeeds and decryption of its result gives the plaintext back; the padding
  appends between 1 and 16 bytes, each equal to their number, and the padded
  length is a multiple of 16. The block cipher of the library is assumed to
  work on 16-byte blocks and to be inverted by its decryption.
\<close>

theorem cipher_codec_roundtrip:
  assumes "block_cipher_ok L k" and "length k = 32" and "length v = 16"
  shows "(\<exists>c. encrypt L P (Some k) (Some v) = Inr c \<and> decrypt L c (Some k) (Some v) = Inr P)
         \<and> (\<exists>n. 1 \<le> n \<and> n \<le> 16 \<and> pad P = P @ replicate n (of_nat n))
         \<and> length (pad P) mod 16 = 0"
proof -
  obtain c where c: "encrypt L P (Some k) (Some v) = Inr c"
    using assms(2,3) by (simp add: encrypt_valid)
  have "decrypt L c (Some k) (Some v) = Inr P"
    using assms c by (rule decrypt_encrypt)
  with c show ?thesis
    using pad_shape [of P] pad_length_mod [of P] by blast
qed

lemma toy_block_roundtrip:
  "length b = length k' \<Longrightarrow> map2 (-) (map2 (+) b k') k' = (b :: bytes)"
  by (induction b k' rule: list_induct2) simp_all

lemma toy_block_cipher_ok: "16 \<le> length k \<Longrightarrow> block_cipher_ok toy_lib k"
  by (simp add: block_cipher_ok_def toy_lib_def toy_encrypt_block_def toy_decrypt_block_def
      toy_block_roundtrip)

lemma length_toy_kdf: "length (toy_kdf pw sa) = 32"
  by (simp add: toy_kdf_def)

theorem cipher_codec_roundtrip_witness:
  "(\<exists>c. encrypt toy_lib [1, 2, 3] (Some (toy_kdf ''correct-horse'' ex_salt)) (Some ex_iv) = Inr c
        \<and> decrypt toy_lib c (Some (toy_kdf ''correct-horse'' ex_salt)) (Some ex_iv) = Inr [1, 2, 3])
   \<and> (\<exists>n. 1 \<le> n \<and> n \<le> 16 \<and> pad [1, 2, 3] = [1, 2, 3] @ replicate n (of_nat n))
   \<and> length (pad [1, 2, 3]) mod 16 = 0"
  using cipher_codec_roundtrip [of toy_lib "toy_kdf ''correct-horse'' ex_salt" ex_iv "[1, 2, 3]"]
  by (simp add: toy_block_cipher_ok length_toy_kdf ex_iv_def)

section \<open>Decryption of arbitrary ciphertext\<close>

lemma decrypt_empty:
  "length k = 32 \<Longrightarrow> length v = 16 \<Longrightarrow> decrypt L [] (Some k) (Some v) = Inl IndexError"
  by (simp add: decrypt_def cipher_valid update_finalize_def unpad_empty)

lemma decrypt_single_block:
  assumes ok: "block_cipher_ok L k" and k: "length k = 32" and v: "length v = 16"
    and b: "length b = 16"
  shows "decrypt L (aes_encrypt_block L k (xor_bytes b v)) (Some k) (Some v) = unpad b"
proof -
  let ?c = "aes_encrypt_block L k (xor_bytes b v)"
  have lx: "length (xor_bytes b v) = 16"
    using b v by (simp add: length_xor_bytes)
  have lc: "length ?c = 16" and dc: "aes_decrypt_block L k ?c = xor_bytes b v"
    using ok lx by (simp_all add: block_cipher_ok_def)
  have x: "xor_bytes (xor_bytes b v) v = b"
    using b v by (intro xor_bytes_cancel) simp
  have "cbc_decrypt_blocks (aes_decrypt_block L k) (Suc 0) v ?c = b"
    by (simp add: Let_def lc dc x)
  then show ?thesis
    using k v lc by (simp add: decrypt_def cipher_valid update_finalize_def)
qed

lemma encrypt_empty_block:
  assumes ok: "block_cipher_ok L k" and k: "length k = 32" and v: "length v = 16"
    and b: "length b = 16"
    and e: "encrypt L [] (Some k) (Some v) = Inr (aes_encrypt_block L k (xor_bytes b v))"
  shows "b = replicate 16 16"
proof -
  let ?p = "replicate 16 (16 :: byte)"
  have p: "pad [] = ?p" by (simp add: pad_def Let_def)
  have "encrypt L [] (Some k) (Some v) = Inr (aes_encrypt_block L k (xor_bytes ?p v))"
    using k v by (simp add: encrypt_valid p Let_def)
  with e have eq: "aes_encrypt_block L k (xor_bytes ?p v) = aes_encrypt_block L k (xor_bytes b v)"
    by simp
  have l1: "length (xor_bytes ?p v) = 16" and l2: "length (xor_bytes b v) = 16"
    using b v by (simp_all add: length_xor_bytes)
  have "xor_bytes ?p v = aes_decrypt_block L k (aes_encrypt_block L k (xor_bytes ?p v))"
    using ok l1 by (simp add: block_cipher_ok_def)
  also have "\<dots> = xor_bytes b v"
    using ok l2 eq by (simp add: block_cipher_ok_def)
  finally have "xor_bytes (xor_bytes ?p v) v = xor_bytes (xor_bytes b v) v"
    by simp
  moreover have "xor_bytes (xor_bytes ?p v) v = ?p"
    using v by (intro xor_bytes_cancel) simp
  moreover have "xor_bytes (xor_bytes b v) v = b"
    using b v by (intro xor_bytes_cancel) simp
  ultimately show ?thesis by simp
qed

text \<open>
  C10. The padding strip is not total: it raises on the empty byte string and
  gives the empty byte string whenever the last byte is 0. So decryption of
  the empty ciphertext raises, and for every 16-byte block ending in 0 there is
  a one-block ciphertext that decrypts, without any error, to the empty
  plaintext although it is not the encryption of the empty plaintext.
\<close>

theorem unpad_not_total:
  "unpad [] = Inl IndexError
   \<and> (d \<noteq> [] \<and> last d = 0 \<longrightarrow> unpad d = Inr [])
   \<and> (length k = 32 \<and> length v = 16 \<longrightarrow> decrypt L [] (Some k) (Some v) = Inl IndexError)
   \<and> (block_cipher_ok L k \<and> length k = 32 \<and> length v = 16 \<and> length b = 16 \<and> last b = 0 \<longrightarrow>
        decrypt L (aes_encrypt_block L k (xor_bytes b v)) (Some k) (Some v) = Inr []
        \<and> encrypt L [] (Some k) (Some v) \<noteq> Inr (aes_encrypt_block L k (xor_bytes b v)))"
proof (intro conjI impI)
  show "unpad [] = Inl IndexError" by (rule unpad_empty)
next
  assume "d \<noteq> [] \<and> last d = 0"
  then show "unpad d = Inr []" by (simp add: unpad_last_zero)
next
  assume "length k = 32 \<and> length v = 16"
  then show "decrypt L [] (Some k) (Some v) = Inl IndexError" by (simp add: decrypt_empty)
next
  assume a: "block_cipher_ok L k \<and> length k = 32 \<and> length v = 16 \<and> length b = 16 \<and> last b = 0"
  then have "b \<noteq> []" by auto
  with a show "decrypt L (aes_encrypt_block L k (xor_bytes b v)) (Some k) (Some v) = Inr []"
    by (simp add: decrypt_single_block unpad_last_zero)
next
  assume a: "block_cipher_ok L k \<and> length k = 32 \<and> length v = 16 \<and> length b = 16 \<and> last b = 0"
  show "encrypt L [] (Some k) (Some v) \<noteq> Inr (aes_encrypt_block L k (xor_bytes b v))"
  proof
    assume "encrypt L [] (Some k) (Some v) = Inr (aes_encrypt_block L k (xor_bytes b v))"
    with a have "b = replicate 16 16" by (intro encrypt_empty_block [of L k v]) simp_all
    then have "last b = 16" by simp
    with a show False by simp
  qed
qed

theorem unpad_not_total_witness:
  "unpad [] = Inl IndexError
   \<and> unpad [7, 0] = Inr []
   \<and> decrypt toy_lib [] (Some (toy_kdf ''correct-horse'' ex_salt)) (Some ex_iv) = Inl IndexError
   \<and> decrypt toy_lib (toy_encrypt_block (toy_kdf ''correct-horse'' ex_salt)
          (xor_bytes (replicate 15 7 @ [0]) ex_iv))
        (Some (toy_kdf ''correct-horse'' ex_salt)) (Some ex_iv) = Inr []
   \<and> encrypt toy_lib [] (Some (toy_kdf ''correct-horse'' ex_salt)) (Some ex_iv)
       \<noteq> Inr (toy_encrypt_block (toy_kdf ''correct-horse'' ex_salt)
                (xor_bytes (replicate 15 7 @ [0]) ex_iv))"
proof -
  have a: "aes_encrypt_block toy_lib = toy_encrypt_block"
    by (simp add: toy_lib_def)
  show ?thesis
    using unpad_not_total [of "[7, 0]" "toy_kdf ''correct-horse'' ex_salt" ex_iv toy_lib
        "replicate 15 7 @ [0]"]
    by (simp add: toy_block_cipher_ok length_toy_kdf ex_iv_def a)
qed

section \<open>Persisting the vault\<close>

lemma save_vault_state: "fst (snd (save_vault L io s f)) = s"
  by (simp add: save_vault_def Let_def split: sum.splits write_result.splits option.splits)

lemma save_vault_locked: "\<not> initialized s \<Longrightarrow> save_vault L io s f = (False, s, f)"
  by (simp add: save_vault_def)

lemma save_vault_ok_iff:
  "fst (save_vault L io s f) \<longleftrightarrow> initialized s \<and> io = WriteOk \<and> container_of L s \<noteq> None"
  by (simp add: save_vault_def container_of_def Let_def
      split: sum.splits write_result.splits option.splits)

lemma save_vault_ok_file:
  "fst (save_vault L io s f) \<Longrightarrow> snd (snd (save_vault L io s f)) = container_of L s"
  by (simp add: save_vault_def container_of_def Let_def
      split: sum.splits write_result.splits option.splits if_splits)

lemma save_vault_failed_file:
  assumes "\<not> fst (save_vault L io s f)"
  shows "snd (snd (save_vault L io s f)) = f
         \<or> snd (snd (save_vault L io s f)) = Some []
         \<or> (\<exists>n c. container_of L s = Some c \<and> snd (snd (save_vault L io s f)) = Some (take n c))"
proof (cases "initialized s")
  case False
  then show ?thesis by (simp add: save_vault_locked)
next
  case True
  show ?thesis
  proof (cases "encrypt L (json_dumps L (vault s)) (master_key s) (iv s)")
    case (Inl e)
    with True show ?thesis by (simp add: save_vault_def)
  next
    case (Inr ct)
    show ?thesis
    proof (cases "salt s")
      case None
      with True Inr show ?thesis
        by (cases io) (simp_all add: save_vault_def)
    next
      case sa: (Some sa)
      show ?thesis
      proof (cases "iv s")
        case None
        with True Inr sa show ?thesis
          by (cases io) (simp_all add: save_vault_def)
      next
        case v: (Some v)
        have c: "container_of L s = Some (sa @ v @ ct)"
          using Inr sa v by (simp add: container_of_def)
        show ?thesis
        proof (cases io)
          case WriteOk
          with assms True Inr sa v show ?thesis by (simp add: save_vault_def)
        next
          case OpenFails
          with True Inr show ?thesis by (simp add: save_vault_def)
        next
          case (WriteFails n)
          with True Inr sa v have "snd (snd (save_vault L io s f)) = Some (take n (sa @ v @ ct))"
            by (simp add: save_vault_def del: take_append)
          with c show ?thesis by blast
        qed
      qed
    qed
  qed
qed

lemma container_of_iv:
  "container_of L s = Some c \<Longrightarrow>
     \<exists>sa v ct. salt s = Some sa \<and> iv s = Some v
       \<and> encrypt L (json_dumps L (vault s)) (master_key s) (Some v) = Inr ct \<and> c = sa @ v @ ct"
  by (auto simp add: container_of_def split: option.splits sum.splits)

lemma ex_container_saved: "container_of toy_lib ex_state = Some ex_container"
  by code_simp

lemma save_vault_write_fails:
  assumes "initialized s" and "container_of L s = Some c"
  shows "save_vault L (WriteFails n) s f = (False, s, Some (take n c))"
proof -
  obtain sa v ct where "salt s = Some sa" and "iv s = Some v"
    and "encrypt L (json_dumps L (vault s)) (master_key s) (Some v) = Inr ct"
    and "c = sa @ v @ ct"
    using container_of_iv [OF assms(2)] by blast
  with assms(1) show ?thesis
    by (simp add: save_vault_def del: take_append)
qed

lemma save_vault_open_fails: "save_vault L OpenFails s f = (False, s, f)"
  by (simp add: save_vault_def Let_def split: sum.splits)

lemma save_vault_encrypt_fails:
  "encrypt L (json_dumps L (vault s)) (master_key s) (iv s) = Inl e \<Longrightarrow>
     save_vault L io s f = (False, s, f)"
  by (simp add: save_vault_def)

lemma save_vault_no_salt:
  assumes "initialized s" and "encrypt L (json_dumps L (vault s)) (master_key s) (iv s) = Inr ct"
    and "salt s = None" and "io \<noteq> OpenFails"
  shows "save_vault L io s f = (False, s, Some [])"
  using assms by (cases io) (simp_all add: save_vault_def)

text \<open>
  C5, as the code has it. \<open>save_vault\<close> never changes the key, salt, IV or vault
  of the session. It succeeds exactly when the session is unlocked, the
  encryption works and the write completes, and the container then holds
  salt, IV and ciphertext. The file is overwritten in place: when the write
  fails after \<open>n\<close> bytes, the container holds exactly the first \<open>n\<close> bytes of the
  new salt, IV and ciphertext, whatever it held before, and the result is
  \<open>False\<close>. The container is left as it was exactly when the failure comes
  before the write: the open fails, the session is locked, or the encryption
  raises. With the salt missing, the opened file is left empty.
\<close>

theorem save_vault_in_place:
  "(case save_vault L io s f of
      (ok, s', file') \<Rightarrow>
        s' = s
        \<and> (ok \<longleftrightarrow> initialized s \<and> io = WriteOk \<and> container_of L s \<noteq> None)
        \<and> (ok \<longrightarrow> file' = container_of L s)
        \<and> (initialized s \<and> container_of L s = Some c \<and> io = WriteFails n \<longrightarrow>
              \<not> ok \<and> file' = Some (take n c))
        \<and> (io = OpenFails \<longrightarrow> \<not> ok \<and> file' = f)
        \<and> (\<not> initialized s \<longrightarrow> \<not> ok \<and> file' = f)
        \<and> (encrypt L (json_dumps L (vault s)) (master_key s) (iv s) = Inl e \<longrightarrow>
              \<not> ok \<and> file' = f)
        \<and> (initialized s \<and> encrypt L (json_dumps L (vault s)) (master_key s) (iv s) = Inr ct
              \<and> salt s = None \<and> io \<noteq> OpenFails \<longrightarrow> \<not> ok \<and> file' = Some []))"
proof -
  obtain ok s' file' where r: "save_vault L io s f = (ok, s', file')"
    by (cases "save_vault L io s f") auto
  have 1: "s' = s"
    using save_vault_state [of L io s f] r by simp
  have 2: "ok \<longleftrightarrow> initialized s \<and> io = WriteOk \<and> container_of L s \<noteq> None"
    using save_vault_ok_iff [of L io s f] r by simp
  have 3: "ok \<longrightarrow> file' = container_of L s"
    using save_vault_ok_file [of L io s f] r by simp
  have 4: "initialized s \<and> container_of L s = Some c \<and> io = WriteFails n \<longrightarrow>
              \<not> ok \<and> file' = Some (take n c)"
    using save_vault_write_fails [of s L c n f] r by auto
  have 5: "io = OpenFails \<longrightarrow> \<not> ok \<and> file' = f"
    using save_vault_open_fails [of L s f] r by auto
  have 6: "\<not> initialized s \<longrightarrow> \<not> ok \<and> file' = f"
    using save_vault_locked [of s L io f] r by auto
  have 7: "encrypt L (json_dumps L (vault s)) (master_key s) (iv s) = Inl e \<longrightarrow>
              \<not> ok \<and> file' = f"
    using save_vault_encrypt_fails [of L s e io f] r by auto
  have 8: "initialized s \<and> encrypt L (json_dumps L (vault s)) (master_key s) (iv s) = Inr ct
              \<and> salt s = None \<and> io \<noteq> OpenFails \<longrightarrow> \<not> ok \<and> file' = Some []"
    using save_vault_no_salt [of s L ct io f] r by auto
  from 1 2 3 4 5 6 7 8 show ?thesis
    unfolding r prod.case by blast
qed

theorem save_vault_in_place_witness:
  "save_vault toy_lib (WriteFails 40) ex_state (Some (ex_salt @ ex_iv @ replicate 16 0))
     = (False, ex_state, Some (take 40 ex_container))
   \<and> save_vault toy_lib OpenFails ex_state (Some (ex_salt @ ex_iv @ replicate 16 0))
     = (False, ex_state, Some (ex_salt @ ex_iv @ replicate 16 0))
   \<and> save_vault toy_lib WriteOk ex_state (Some (ex_salt @ ex_iv @ replicate 16 0))
     = (True, ex_state, Some ex_container)
   \<and> save_vault toy_lib WriteOk init_state (Some ex_container)
     = (False, init_state, Some ex_container)
   \<and> save_vault toy_lib WriteOk (ex_state\<lparr>master_key := None\<rparr>) (Some ex_container)
     = (False, ex_state\<lparr>master_key := None\<rparr>, Some ex_container)
   \<and> save_vault toy_lib WriteOk (ex_state\<lparr>salt := None\<rparr>) (Some ex_container)
     = (False, ex_state\<lparr>salt := None\<rparr>, Some [])"
proof -
  have i: "initialized ex_state" by (simp add: ex_state_def)
  have 1: "save_vault toy_lib (WriteFails 40) ex_state (Some (ex_salt @ ex_iv @ replicate 16 0))
     = (False, ex_state, Some (take 40 ex_container))"
    using save_vault_in_place [where L = toy_lib and io = "WriteFails 40" and s = ex_state
        and f = "Some (ex_salt @ ex_iv @ replicate 16 0)" and c = ex_container and n = 40
        and e = TypeError and ct = "[]"]
      i ex_container_saved
    by (cases "save_vault toy_lib (WriteFails 40) ex_state (Some (ex_salt @ ex_iv @ replicate 16 0))")
      simp
  have 2: "save_vault toy_lib OpenFails ex_state (Some (ex_salt @ ex_iv @ replicate 16 0))
     = (False, ex_state, Some (ex_salt @ ex_iv @ replicate 16 0))"
    using save_vault_in_place [where L = toy_lib and io = OpenFails and s = ex_state
        and f = "Some (ex_salt @ ex_iv @ replicate 16 0)" and c = ex_container and n = 40
        and e = TypeError and ct = "[]"]
    by (cases "save_vault toy_lib OpenFails ex_state (Some (ex_salt @ ex_iv @ replicate 16 0))")
      simp
  have 3: "save_vault toy_lib WriteOk ex_state (Some (ex_salt @ ex_iv @ replicate 16 0))
     = (True, ex_state, Some ex_container)"
    using save_vault_in_place [where L = toy_lib and io = WriteOk and s = ex_state
        and f = "Some (ex_salt @ ex_iv @ replicate 16 0)" and c = ex_container and n = 40
        and e = TypeError and ct = "[]"]
      i ex_container_saved
    by (cases "save_vault toy_lib WriteOk ex_state (Some (ex_salt @ ex_iv @ replicate 16 0))")
      auto
  have 4: "save_vault toy_lib WriteOk init_state (Some ex_container)
     = (False, init_state, Some ex_container)"
    using save_vault_in_place [where L = toy_lib and io = WriteOk and s = init_state
        and f = "Some ex_container" and c = ex_container and n = 40
        and e = TypeError and ct = "[]"]
    by (cases "save_vault toy_lib WriteOk init_state (Some ex_container)")
      (simp add: init_state_def)
  have e5: "encrypt toy_lib (json_dumps toy_lib (vault (ex_state\<lparr>master_key := None\<rparr>)))
              (master_key (ex_state\<lparr>master_key := None\<rparr>)) (iv (ex_state\<lparr>master_key := None\<rparr>))
            = Inl TypeError"
    by (simp add: encrypt_def cipher_def)
  have 5: "save_vault toy_lib WriteOk (ex_state\<lparr>master_key := None\<rparr>) (Some ex_container)
     = (False, ex_state\<lparr>master_key := None\<rparr>, Some ex_container)"
    using save_vault_in_place [where L = toy_lib and io = WriteOk
        and s = "ex_state\<lparr>master_key := None\<rparr>"
        and f = "Some ex_container" and c = ex_container and n = 40
        and e = TypeError and ct = "[]"] e5
    by (cases "save_vault toy_lib WriteOk (ex_state\<lparr>master_key := None\<rparr>) (Some ex_container)")
      simp
  have e6: "encrypt toy_lib (json_dumps toy_lib (vault (ex_state\<lparr>salt := None\<rparr>)))
              (master_key (ex_state\<lparr>salt := None\<rparr>)) (iv (ex_state\<lparr>salt := None\<rparr>))
            = Inr (drop 32 ex_container)"
    by code_simp
  have 6: "save_vault toy_lib WriteOk (ex_state\<lparr>salt := None\<rparr>) (Some ex_container)
     = (False, ex_state\<lparr>salt := None\<rparr>, Some [])"
    using save_vault_in_place [where L = toy_lib and io = WriteOk
        and s = "ex_state\<lparr>salt := None\<rparr>"
        and f = "Some ex_container" and c = ex_container and n = 40
        and e = TypeError and ct = "drop 32 ex_container"] e6 i
    by (cases "save_vault toy_lib WriteOk (ex_state\<lparr>salt := None\<rparr>) (Some ex_container)")
      simp
  from 1 2 3 4 5 6 show ?thesis by blast
qed

text \<open>
  A write that fails after 40 bytes leaves a container that is neither the
  old one nor the new one, and reports failure.
\<close>

theorem save_vault_not_atomic:
  "save_vault toy_lib (WriteFails 40) ex_state (Some (ex_salt @ ex_iv @ replicate 16 0))
     = (False, ex_state, Some (ex_salt @ ex_iv @ [116, 120, 219, 214, 221, 198, 243, 152]))
   \<and> ex_salt @ ex_iv @ [116, 120, 219, 214, 221, 198, 243, 152] \<noteq> ex_salt @ ex_iv @ replicate 16 0
   \<and> Some (ex_salt @ ex_iv @ [116, 120, 219, 214, 221, 198, 243, 152]) \<noteq> container_of toy_lib ex_state"
  by code_simp

section \<open>Master password rotation\<close>

lemma change_master_password_mismatch:
  "\<not> password_matches L cur s \<Longrightarrow>
     change_master_password L new_salt io cur new s f = (False, s, f)"
  by (simp add: change_master_password_def password_matches_def derive_key_def secure_compare_def
      split: option.splits)

lemma change_master_password_rejected:
  assumes "\<not> (initialized s \<and> password_matches L cur s)"
  shows "change_master_password L new_salt io cur new s f = (False, s, f)"
proof (cases "initialized s")
  case True
  with assms have "\<not> password_matches L cur s" by simp
  then show ?thesis by (rule change_master_password_mismatch)
next
  case False
  then show ?thesis by (simp add: change_master_password_def)
qed

lemma change_master_password_match:
  assumes "initialized s" and "password_matches L cur s"
  shows "change_master_password L new_salt io cur new s f =
           (let s1 = s\<lparr>salt := Some new_salt, master_key := Some (pbkdf2_hmac L new new_salt)\<rparr>
            in if fst (save_vault L io s1 f) then (True, s1, snd (snd (save_vault L io s1 f)))
               else (False, s, snd (snd (save_vault L io s1 f))))"
proof -
  let ?s1 = "s\<lparr>salt := Some new_salt, master_key := Some (pbkdf2_hmac L new new_salt)\<rparr>"
  obtain ok s2 f2 where r: "save_vault L io ?s1 f = (ok, s2, f2)"
    by (cases "save_vault L io ?s1 f") auto
  have s2: "s2 = ?s1"
    using save_vault_state [of L io ?s1 f] r by simp
  obtain sa k where sk: "salt s = Some sa" "master_key s = Some k" "pbkdf2_hmac L cur sa = k"
    using assms(2) by (auto simp add: password_matches_def split: option.splits)
  show ?thesis
    using assms(1) sk r s2
    by (simp add: change_master_password_def derive_key_def secure_compare_def Let_def)
qed

lemma change_master_password_frame:
  "vault (fst (snd (change_master_password L new_salt io cur new s f))) = vault s
   \<and> iv (fst (snd (change_master_password L new_salt io cur new s f))) = iv s
   \<and> initialized (fst (snd (change_master_password L new_salt io cur new s f))) = initialized s"
proof (cases "initialized s \<and> password_matches L cur s")
  case True
  then show ?thesis
    by (simp add: change_master_password_match Let_def)
next
  case False
  then have "change_master_password L new_salt io cur new s f = (False, s, f)"
    by (rule change_master_password_rejected)
  then show ?thesis by simp
qed

lemma ex_state_matches: "password_matches toy_lib ''correct-horse'' ex_state"
  by (simp add: password_matches_def ex_state_def toy_lib_def)

lemma ex_state_mismatch: "\<not> password_matches toy_lib ''wrong'' ex_state"
  by code_simp

lemma change_master_password_rotates:
  assumes "initialized s" and "password_matches L cur s"
  shows "change_master_password L new_salt io cur new s f =
           (if fst (save_vault L io (rotated L new_salt new s) f)
            then (True, rotated L new_salt new s, snd (snd (save_vault L io (rotated L new_salt new s) f)))
            else (False, s, snd (snd (save_vault L io (rotated L new_salt new s) f))))"
  using assms by (simp add: change_master_password_match rotated_def Let_def)

lemma rotated_initialized: "initialized (rotated L new_salt new s) = initialized s"
  by (simp add: rotated_def)

text \<open>
  C4, as the code has it. A rotation that reports failure leaves the session in
  memory exactly as it was. When the key derived from the current password and
  the current salt is not the stored key (the comparison is modelled as
  equality of the two keys), neither the session nor the container changes.
  When the key matches, the result and the container are those of
  \<open>save_vault\<close> on the session with the new salt and key; if that save fails,
  salt and key are put back in memory, but the container is not put back: a
  write that failed after \<open>n\<close> bytes leaves the first \<open>n\<close> bytes of the container
  under the new salt and key. A rotation that reports success has the new salt,
  the key derived from the new password and that salt, the same vault and IV,
  and has written the container of that session.
\<close>

theorem rotation_session_rollback:
  "(case change_master_password L new_salt io cur new s f of
      (ok, s', file') \<Rightarrow>
        (\<not> ok \<longrightarrow> s' = s)
        \<and> (\<not> password_matches L cur s \<longrightarrow> \<not> ok \<and> s' = s \<and> file' = f)
        \<and> (ok \<longrightarrow> s' = rotated L new_salt new s \<and> file' = container_of L s' \<and> file' \<noteq> None)
        \<and> (initialized s \<and> password_matches L cur s \<longrightarrow>
              ok = fst (save_vault L io (rotated L new_salt new s) f)
              \<and> file' = snd (snd (save_vault L io (rotated L new_salt new s) f)))
        \<and> (initialized s \<and> password_matches L cur s
              \<and> container_of L (rotated L new_salt new s) = Some c \<and> io = WriteFails n \<longrightarrow>
              \<not> ok \<and> s' = s \<and> file' = Some (take n c))
        \<and> (io = OpenFails \<longrightarrow> \<not> ok \<and> s' = s \<and> file' = f))"
proof (cases "initialized s \<and> password_matches L cur s")
  case True
  let ?r = "rotated L new_salt new s"
  have ri: "initialized ?r"
    using True by (simp add: rotated_initialized)
  show ?thesis
  proof (cases "fst (save_vault L io ?r f)")
    case ok: True
    have "snd (snd (save_vault L io ?r f)) = container_of L ?r"
      using ok by (rule save_vault_ok_file)
    moreover have "container_of L ?r \<noteq> None" and "io = WriteOk"
      using ok save_vault_ok_iff [of L io ?r f] by simp_all
    ultimately show ?thesis
      using True ok by (simp add: change_master_password_rotates)
  next
    case no: False
    have w: "container_of L ?r = Some c \<and> io = WriteFails n \<longrightarrow>
               snd (snd (save_vault L io ?r f)) = Some (take n c)"
      using ri by (auto simp add: save_vault_write_fails)
    have o: "io = OpenFails \<longrightarrow> snd (snd (save_vault L io ?r f)) = f"
      by (auto simp add: save_vault_open_fails)
    show ?thesis
      using True no w o by (simp add: change_master_password_rotates)
  qed
next
  case False
  then have "change_master_password L new_salt io cur new s f = (False, s, f)"
    by (rule change_master_password_rejected)
  with False show ?thesis by auto
qed

lemma ex_rotated_container_saved:
  "container_of toy_lib (rotated toy_lib ex_iv ''new-pass'' ex_state) = Some ex_rotated_container"
  by code_simp

theorem rotation_session_rollback_witness:
  "change_master_password toy_lib ex_iv WriteOk ''wrong'' ''new-pass'' ex_state (Some ex_container)
     = (False, ex_state, Some ex_container)
   \<and> change_master_password toy_lib ex_iv (WriteFails 40) ''correct-horse'' ''new-pass'' ex_state
        (Some ex_container)
     = (False, ex_state, Some (take 40 ex_rotated_container))
   \<and> change_master_password toy_lib ex_iv OpenFails ''correct-horse'' ''new-pass'' ex_state
        (Some ex_container)
     = (False, ex_state, Some ex_container)
   \<and> change_master_password toy_lib ex_iv WriteOk ''correct-horse'' ''new-pass'' ex_state
        (Some ex_container)
     = (True, rotated toy_lib ex_iv ''new-pass'' ex_state, Some ex_rotated_container)"
proof -
  have i: "initialized ex_state"
    by (simp add: ex_state_def)
  have b: "fst (save_vault toy_lib WriteOk (rotated toy_lib ex_iv ''new-pass'' ex_state)
             (Some ex_container))"
    using i by (simp add: save_vault_ok_iff rotated_initialized ex_rotated_container_saved)
  have 1: "change_master_password toy_lib ex_iv WriteOk ''wrong'' ''new-pass'' ex_state
        (Some ex_container) = (False, ex_state, Some ex_container)"
    using rotation_session_rollback [where L = toy_lib and new_salt = ex_iv and io = WriteOk
        and cur = "''wrong''" and new = "''new-pass''" and s = ex_state
        and f = "Some ex_container" and c = ex_rotated_container and n = 40]
      ex_state_mismatch
    by (cases "change_master_password toy_lib ex_iv WriteOk ''wrong'' ''new-pass'' ex_state
        (Some ex_container)") simp
  have 2: "change_master_password toy_lib ex_iv (WriteFails 40) ''correct-horse'' ''new-pass''
        ex_state (Some ex_container) = (False, ex_state, Some (take 40 ex_rotated_container))"
    using rotation_session_rollback [where L = toy_lib and new_salt = ex_iv
        and io = "WriteFails 40" and cur = "''correct-horse''" and new = "''new-pass''"
        and s = ex_state and f = "Some ex_container" and c = ex_rotated_container and n = 40]
      i ex_state_matches ex_rotated_container_saved
    by (cases "change_master_password toy_lib ex_iv (WriteFails 40) ''correct-horse'' ''new-pass''
        ex_state (Some ex_container)") simp
  have 3: "change_master_password toy_lib ex_iv OpenFails ''correct-horse'' ''new-pass''
        ex_state (Some ex_container) = (False, ex_state, Some ex_container)"
    using rotation_session_rollback [where L = toy_lib and new_salt = ex_iv
        and io = OpenFails and cur = "''correct-horse''" and new = "''new-pass''"
        and s = ex_state and f = "Some ex_container" and c = ex_rotated_container and n = 40]
    by (cases "change_master_password toy_lib ex_iv OpenFails ''correct-horse'' ''new-pass''
        ex_state (Some ex_container)") simp
  have 4: "change_master_password toy_lib ex_iv WriteOk ''correct-horse'' ''new-pass''
        ex_state (Some ex_container)
     = (True, rotated toy_lib ex_iv ''new-pass'' ex_state, Some ex_rotated_container)"
    using rotation_session_rollback [where L = toy_lib and new_salt = ex_iv
        and io = WriteOk and cur = "''correct-horse''" and new = "''new-pass''"
        and s = ex_state and f = "Some ex_container" and c = ex_rotated_container and n = 40]
      i ex_state_matches ex_rotated_container_saved b
    by (cases "change_master_password toy_lib ex_iv WriteOk ''correct-horse'' ''new-pass''
        ex_state (Some ex_container)") auto
  from 1 2 3 4 show ?thesis by blast
qed

text \<open>
  A rotation of \<open>ex_state\<close> whose write fails after 40 bytes reports failure and
  restores the session, but the container now starts with the new salt and the
  old password no longer unlocks it, as it did before. When the failure comes
  after all bytes were written, the call still reports failure while the
  container is the rotated one: the new password unlocks it, the old one does
  not.
\<close>

theorem rotation_partial_on_disk:
  "initialized (fst (snd (initialize toy_lib ex_salt ex_iv ReadOk WriteOk ''correct-horse''
       init_state (Some ex_container))))
   \<and> change_master_password toy_lib ex_iv (WriteFails 40) ''correct-horse'' ''new-pass'' ex_state
        (Some ex_container)
     = (False, ex_state, Some (take 40 ex_rotated_container))
   \<and> \<not> initialized (fst (snd (initialize toy_lib ex_salt ex_iv ReadOk WriteOk ''correct-horse''
       init_state (Some (take 40 ex_rotated_container)))))
   \<and> change_master_password toy_lib ex_iv (WriteFails 1000) ''correct-horse'' ''new-pass'' ex_state
        (Some ex_container)
     = (False, ex_state, Some ex_rotated_container)
   \<and> \<not> initialized (fst (snd (initialize toy_lib ex_salt ex_iv ReadOk WriteOk ''correct-horse''
       init_state (Some ex_rotated_container))))
   \<and> initialized (fst (snd (initialize toy_lib ex_salt ex_iv ReadOk WriteOk ''new-pass''
       init_state (Some ex_rotated_container))))"
  by code_simp

section \<open>The IV of a session\<close>

lemma add_password_frame:
  "iv (fst (snd (add_password L rnd today io service username pw u n s f))) = iv s"
proof -
  have "\<And>t. iv (fst (snd (save_vault L io t f))) = iv t"
    by (simp add: save_vault_state)
  then show ?thesis
    by (simp add: add_password_def Let_def split: option.splits)
qed

lemma remove_password_frame:
  "iv (fst (snd (remove_password L io service username s f))) = iv s"
proof -
  have "\<And>t. iv (fst (snd (save_vault L io t f))) = iv t"
    by (simp add: save_vault_state)
  then show ?thesis
    by (simp add: remove_password_def Let_def split: option.splits)
qed

text \<open>
  C7. Neither \<open>change_master_password\<close> nor \<open>save_vault\<close> changes the IV of the
  session, whatever their result; a rotation also keeps the vault and the
  unlocked flag. Every successful save writes salt, then that same IV, then
  the vault encrypted under it. Adding and removing entries keep the IV as
  well, so it is assigned only by \<open>_create_new_vault\<close> and \<open>_load_vault\<close>.
\<close>

theorem iv_never_regenerated:
  "iv (fst (snd (change_master_password L new_salt io cur new s f))) = iv s
   \<and> vault (fst (snd (change_master_password L new_salt io cur new s f))) = vault s
   \<and> initialized (fst (snd (change_master_password L new_salt io cur new s f))) = initialized s
   \<and> iv (fst (snd (save_vault L io s f))) = iv s
   \<and> (fst (save_vault L io s f) \<longrightarrow>
        (\<exists>sa v ct. salt s = Some sa \<and> iv s = Some v
           \<and> encrypt L (json_dumps L (vault s)) (master_key s) (Some v) = Inr ct
           \<and> snd (snd (save_vault L io s f)) = Some (sa @ v @ ct)))
   \<and> iv (fst (snd (add_password L rnd today io service username pw u n s f))) = iv s
   \<and> iv (fst (snd (remove_password L io service username' s f))) = iv s"
proof -
  have "fst (save_vault L io s f) \<longrightarrow>
        (\<exists>sa v ct. salt s = Some sa \<and> iv s = Some v
           \<and> encrypt L (json_dumps L (vault s)) (master_key s) (Some v) = Inr ct
           \<and> snd (snd (save_vault L io s f)) = Some (sa @ v @ ct))"
  proof
    assume ok: "fst (save_vault L io s f)"
    then obtain c where c: "container_of L s = Some c"
      using save_vault_ok_iff [of L io s f] by auto
    with ok have "snd (snd (save_vault L io s f)) = Some c"
      by (simp add: save_vault_ok_file)
    with container_of_iv [OF c]
    show "\<exists>sa v ct. salt s = Some sa \<and> iv s = Some v
           \<and> encrypt L (json_dumps L (vault s)) (master_key s) (Some v) = Inr ct
           \<and> snd (snd (save_vault L io s f)) = Some (sa @ v @ ct)"
      by auto
  qed
  then show ?thesis
    using change_master_password_frame [of L new_salt io cur new s f]
      add_password_frame [of L rnd today io service username pw u n s f]
      remove_password_frame [of L io service username' s f]
    by (simp add: save_vault_state)
qed

theorem iv_never_regenerated_witness:
  "iv (fst (snd (change_master_password toy_lib ex_salt WriteOk ''correct-horse'' ''new-pass''
        ex_state None))) = Some ex_iv
   \<and> iv (fst (snd (save_vault toy_lib WriteOk ex_state None))) = Some ex_iv
   \<and> (\<exists>sa ct. snd (snd (save_vault toy_lib WriteOk ex_state None)) = Some (sa @ ex_iv @ ct))"
proof -
  have ok: "fst (save_vault toy_lib WriteOk ex_state None)"
    by code_simp
  have i: "iv ex_state = Some ex_iv"
    by (simp add: ex_state_def)
  show ?thesis
    using iv_never_regenerated [where L = toy_lib and new_salt = ex_salt and io = WriteOk
        and cur = "''correct-horse''" and new = "''new-pass''" and s = ex_state and f = None
        and rnd = "\<lambda>i. i" and today = "''2024-01-02''" and service = "''github''"
        and username = "''bob''" and pw = None and u = "[]" and n = "[]"
        and username' = None] ok i
    by auto
qed

section \<open>Adding and removing entries\<close>




lemma add_password_unlocked:
  assumes "initialized s"
  shows "add_password L rnd today io service username pw u n s f =
           save_vault L io
             (s\<lparr>vault := AList.update service
                  (AList.update username
                     \<lparr>password = (case pw of None \<Rightarrow> generate_password rnd 16 True True True True
                                   | Some p \<Rightarrow> p),
                      url = u, notes = n, date_modified = today\<rparr>
                     (case map_of (vault s) service of None \<Rightarrow> [] | Some m \<Rightarrow> m))
                  (vault s)\<rparr>) f"
  using assms
  by (cases "map_of (vault s) service")
    (simp_all add: add_password_def Let_def AList.update_conv')









lemma create_new_vault_state:
  "fst (create_new_vault L rs ri io P s f) =
     s\<lparr>salt := Some rs, iv := Some ri, master_key := Some (pbkdf2_hmac L P rs), vault := [],
       initialized := True\<rparr>"
proof -
  let ?t = "s\<lparr>salt := Some rs, iv := Some ri, master_key := Some (pbkdf2_hmac L P rs), vault := [],
       initialized := True\<rparr>"
  obtain ok t' f' where r: "save_vault L io ?t f = (ok, t', f')"
    by (cases "save_vault L io ?t f") auto
  have "t' = ?t"
    using save_vault_state [of L io ?t f] r by simp
  with r show ?thesis
    by (simp add: create_new_vault_def Let_def)
qed




section \<open>Generated passwords\<close>

lemma choice_in_pool: "chars \<noteq> [] \<Longrightarrow> choice rnd i chars \<in> set chars"
  by (simp add: choice_def)

lemma map_choice_subset: "chars \<noteq> [] \<Longrightarrow> set (map (\<lambda>i. choice rnd i chars) xs) \<subseteq> set chars"
  by (auto simp add: choice_in_pool)

lemma generate_password_map:
  "generate_password rnd len up lo di sp =
     map (\<lambda>i. choice rnd i
           (if \<not> up \<and> \<not> lo \<and> \<not> di \<and> \<not> sp then ascii_letters @ digits @ punctuation
            else (if up then ascii_uppercase else []) @ (if lo then ascii_lowercase else [])
                 @ (if di then digits else []) @ (if sp then punctuation else [])))
         [0..<nat len]"
  by (simp add: generate_password_def Let_def ascii_uppercase_def ascii_lowercase_def digits_def
      punctuation_def)

lemma pool_nonempty:
  "(if \<not> up \<and> \<not> lo \<and> \<not> di \<and> \<not> sp then ascii_letters @ digits @ punctuation
    else (if up then ascii_uppercase else []) @ (if lo then ascii_lowercase else [])
         @ (if di then digits else []) @ (if sp then punctuation else [])) \<noteq> []"
  by (simp add: ascii_letters_def ascii_uppercase_def ascii_lowercase_def digits_def
      punctuation_def)

lemma no_uppercase_in_rest:
  "set (ascii_lowercase @ digits @ punctuation) \<inter> set ascii_uppercase = {}"
  by code_simp

text \<open>
  C9. The generated string has exactly \<open>max(length, 0)\<close> characters, each taken
  from the pool: the concatenation of the enabled classes, or letters, digits
  and punctuation when no class is enabled. A length of 0 or less gives the
  empty string. With the uppercase class disabled and another one enabled, as
  in \<open>generate(length=20, useUpper=false)\<close>, the result has 20 characters and
  none of them is in A to Z.
\<close>

theorem generation_policy:
  "length (generate_password rnd len up lo di sp) = nat (max len 0)
   \<and> set (generate_password rnd len up lo di sp)
       \<subseteq> (if \<not> up \<and> \<not> lo \<and> \<not> di \<and> \<not> sp
          then set ascii_letters \<union> set digits \<union> set punctuation
          else (if up then set ascii_uppercase else {}) \<union> (if lo then set ascii_lowercase else {})
               \<union> (if di then set digits else {}) \<union> (if sp then set punctuation else {}))
   \<and> (len \<le> 0 \<longrightarrow> generate_password rnd len up lo di sp = [])
   \<and> (lo \<or> di \<or> sp \<longrightarrow>
        length (generate_password rnd 20 False lo di sp) = 20
        \<and> set (generate_password rnd 20 False lo di sp) \<inter> set ascii_uppercase = {})"
proof -
  let ?pool = "if \<not> up \<and> \<not> lo \<and> \<not> di \<and> \<not> sp then ascii_letters @ digits @ punctuation
               else (if up then ascii_uppercase else []) @ (if lo then ascii_lowercase else [])
                    @ (if di then digits else []) @ (if sp then punctuation else [])"
  have len: "length (generate_password rnd len up lo di sp) = nat (max len 0)"
    by (simp add: generate_password_map)
  have "set (generate_password rnd len up lo di sp) \<subseteq> set ?pool"
    unfolding generate_password_map by (rule map_choice_subset) (rule pool_nonempty)
  then have sub: "set (generate_password rnd len up lo di sp)
       \<subseteq> (if \<not> up \<and> \<not> lo \<and> \<not> di \<and> \<not> sp
          then set ascii_letters \<union> set digits \<union> set punctuation
          else (if up then set ascii_uppercase else {}) \<union> (if lo then set ascii_lowercase else {})
               \<union> (if di then set digits else {}) \<union> (if sp then set punctuation else {}))"
    by (auto split: if_splits)
  have empty: "len \<le> 0 \<longrightarrow> generate_password rnd len up lo di sp = []"
    by (simp add: generate_password_map)
  have upper: "set (generate_password rnd 20 False lo di sp) \<inter> set ascii_uppercase = {}"
    if e: "lo \<or> di \<or> sp"
  proof -
    let ?p = "(if lo then ascii_lowercase else []) @ (if di then digits else [])
              @ (if sp then punctuation else [])"
    have ne: "?p \<noteq> []"
      using pool_nonempty [of False lo di sp] e by auto
    have g: "generate_password rnd 20 False lo di sp = map (\<lambda>i. choice rnd i ?p) [0..<nat 20]"
      using e by (auto simp add: generate_password_map)
    have "set (generate_password rnd 20 False lo di sp) \<subseteq> set ?p"
      unfolding g using ne by (rule map_choice_subset)
    also have "\<dots> \<subseteq> set (ascii_lowercase @ digits @ punctuation)"
      by auto
    finally show ?thesis
      using no_uppercase_in_rest by blast
  qed
  have "length (generate_password rnd 20 False lo di sp) = 20"
    by (simp add: generate_password_map)
  with len sub empty upper show ?thesis
    by blast
qed

theorem generation_policy_witness:
  "length (generate_password (\<lambda>i. 7 * i + 3) 20 False True True True) = 20
   \<and> set (generate_password (\<lambda>i. 7 * i + 3) 20 False True True True) \<inter> set ascii_uppercase = {}
   \<and> generate_password (\<lambda>i. 7 * i + 3) (- 1) True True True True = []"
  using generation_policy [of "\<lambda>i. 7 * i + 3" 20 False True True True]
    generation_policy [of "\<lambda>i. 7 * i + 3" "- 1" True True True True]
  by simp

section \<open>Saving and unlocking again\<close>

lemma slice_header:
  assumes "length sa = 16" and "length v = 16"
  shows "slice_from_to (slice_from_to (sa @ v @ ct) 0 32) 0 16 = sa"
    and "slice_from_to (slice_from_to (sa @ v @ ct) 0 32) 16 32 = v"
    and "drop 32 (sa @ v @ ct) = ct"
  using assms by (simp_all add: slice_from_to_def)

lemma load_vault_of_saved:
  assumes sa: "length sa = 16" and v: "length v = 16"
    and k: "length (pbkdf2_hmac L P sa) = 32" and bc: "block_cipher_ok L (pbkdf2_hmac L P sa)"
    and ct: "encrypt L (json_dumps L vlt) (Some (pbkdf2_hmac L P sa)) (Some v) = Inr ct"
    and js: "json_loads L (json_dumps L vlt) = Some vlt"
  shows "load_vault L (sa @ v @ ct) P t =
           (True, t\<lparr>salt := Some sa, iv := Some v, master_key := Some (pbkdf2_hmac L P sa),
                    vault := vlt, initialized := True\<rparr>)"
proof -
  have d: "decrypt L ct (Some (pbkdf2_hmac L P sa)) (Some v) = Inr (json_dumps L vlt)"
    using bc k v ct by (rule decrypt_encrypt)
  show ?thesis
    by (simp add: load_vault_def Let_def slice_header [OF sa v] derive_key_def d js
        del: drop_append take_append)
qed

lemma save_then_unlock:
  assumes i: "initialized s" and sa: "salt s = Some sa" "length sa = 16"
    and v: "iv s = Some v" "length v = 16"
    and k: "master_key s = Some (pbkdf2_hmac L P sa)" "length (pbkdf2_hmac L P sa) = 32"
    and bc: "block_cipher_ok L (pbkdf2_hmac L P sa)"
    and js: "json_loads L (json_dumps L (vault s)) = Some (vault s)"
  shows "\<exists>c. save_vault L WriteOk s f = (True, s, Some c)
           \<and> initialize L rs' ri' ReadOk io' P init_state (Some c) =
               (Returned PyNone,
                \<lparr>master_key = Some (pbkdf2_hmac L P sa), vault = vault s, salt = Some sa,
                 iv = Some v, initialized = True\<rparr>, Some c)"
proof -
  obtain ct where ct: "encrypt L (json_dumps L (vault s)) (Some (pbkdf2_hmac L P sa)) (Some v) = Inr ct"
    using k(2) v(2) by (simp add: encrypt_valid)
  let ?c = "sa @ v @ ct"
  have s: "save_vault L WriteOk s f = (True, s, Some ?c)"
    using i sa(1) v(1) k(1) ct by (simp add: save_vault_def)
  have ne: "length ?c = 0 \<longleftrightarrow> False"
    using sa(2) by simp
  have l: "load_vault L ?c P init_state =
             (True, init_state\<lparr>salt := Some sa, iv := Some v,
                master_key := Some (pbkdf2_hmac L P sa), vault := vault s, initialized := True\<rparr>)"
    using sa(2) v(2) k(2) bc ct js by (rule load_vault_of_saved)
  have r: "init_state\<lparr>salt := Some sa, iv := Some v,
                master_key := Some (pbkdf2_hmac L P sa), vault := vault s, initialized := True\<rparr>
           = \<lparr>master_key = Some (pbkdf2_hmac L P sa), vault = vault s, salt = Some sa,
                 iv = Some v, initialized = True\<rparr>"
    by (simp add: init_state_def)
  have "initialize L rs' ri' ReadOk io' P init_state (Some ?c) =
               (Returned PyNone,
                \<lparr>master_key = Some (pbkdf2_hmac L P sa), vault = vault s, salt = Some sa,
                 iv = Some v, initialized = True\<rparr>, Some ?c)"
    unfolding initialize_def option.case read_result.case Let_def ne if_False l prod.case r ..
  with s show ?thesis by blast
qed

lemma initialize_creates:
  assumes "fl = None \<or> fl = Some []"
  shows "initialize L rs ri ReadOk io P s fl =
           (Returned PyNone, fst (create_new_vault L rs ri io P s fl),
            snd (create_new_vault L rs ri io P s fl))"
  using assms by (auto simp add: initialize_def Let_def split: prod.splits)

text \<open>
  C1. Start from a new \<open>PasswordManager\<close> and a container path that does not
  exist or is empty; \<open>initialize\<close> with password \<open>P\<close> creates the vault; then
  \<open>add_password\<close> stores an entry and its save completes. A second new
  \<open>PasswordManager\<close> initialised with \<open>P\<close> on the resulting container returns
  without exception, is unlocked, and \<open>get_password\<close> gives an entry whose
  password is the stored one. Assumed of the environment: \<open>os.urandom(16)\<close>
  gave 16 bytes each time, the derived key has 32 bytes, the block cipher under
  it is inverted by its decryption, JSON parsing inverts JSON serialisation on
  the stored vault, and reading the container works.
\<close>

theorem unlock_after_persist:
  assumes fl: "fl = None \<or> fl = Some []"
    and rs: "length rs = 16" and ri: "length ri = 16"
    and k: "length (pbkdf2_hmac L P rs) = 32"
    and bc: "block_cipher_ok L (pbkdf2_hmac L P rs)"
    and js: "json_loads L (json_dumps L
               [(service, [(username, \<lparr>password = pw, url = u, notes = n, date_modified = today\<rparr>)])])
             = Some [(service, [(username, \<lparr>password = pw, url = u, notes = n, date_modified = today\<rparr>)])]"
  shows "(case initialize L rs ri ReadOk io P init_state fl of
            (r1, s1, f1) \<Rightarrow>
              (case add_password L rnd today WriteOk service username (Some pw) u n s1 f1 of
                 (ok, s2, f2) \<Rightarrow>
                   (case initialize L rs' ri' ReadOk io' P init_state f2 of
                      (r3, s3, f3) \<Rightarrow>
                        r1 = Returned PyNone \<and> ok \<and> r3 = Returned PyNone \<and> initialized s3
                        \<and> (\<exists>e. get_password s3 service username = Some e \<and> password e = pw)
                        \<and> f3 = f2)))"
proof -
  let ?e = "\<lparr>password = pw, url = u, notes = n, date_modified = today\<rparr>"
  let ?s1 = "init_state\<lparr>salt := Some rs, iv := Some ri, master_key := Some (pbkdf2_hmac L P rs),
               vault := [], initialized := True\<rparr>"
  let ?f1 = "snd (create_new_vault L rs ri io P init_state fl)"
  let ?s2 = "?s1\<lparr>vault := [(service, [(username, ?e)])]\<rparr>"
  have 1: "initialize L rs ri ReadOk io P init_state fl = (Returned PyNone, ?s1, ?f1)"
    using fl by (simp add: initialize_creates create_new_vault_state)
  have a: "add_password L rnd today WriteOk service username (Some pw) u n ?s1 ?f1 =
             save_vault L WriteOk ?s2 ?f1"
    by (simp add: add_password_unlocked)
  obtain c where 2: "save_vault L WriteOk ?s2 ?f1 = (True, ?s2, Some c)"
    and 3: "initialize L rs' ri' ReadOk io' P init_state (Some c) =
               (Returned PyNone,
                \<lparr>master_key = Some (pbkdf2_hmac L P rs), vault = vault ?s2, salt = Some rs,
                 iv = Some ri, initialized = True\<rparr>, Some c)"
    using save_then_unlock [of ?s2 rs ri L P ?f1 rs' ri' io'] rs ri k bc js
    by auto
  show ?thesis
    unfolding 1 prod.case a 2 3 by (simp add: get_password_def)
qed

theorem unlock_after_persist_witness:
  "(case initialize toy_lib ex_salt ex_iv ReadOk WriteOk ''correct-horse'' init_state None of
      (r1, s1, f1) \<Rightarrow>
        (case add_password toy_lib (\<lambda>i. i) ''2024-01-01'' WriteOk ''github'' ''alice''
                (Some ''P@ssw0rd1'') [] [] s1 f1 of
           (ok, s2, f2) \<Rightarrow>
             (case initialize toy_lib ex_iv ex_salt ReadOk WriteOk ''correct-horse'' init_state f2 of
                (r3, s3, f3) \<Rightarrow>
                  ok \<and> initialized s3
                  \<and> (\<exists>e. get_password s3 ''github'' ''alice'' = Some e \<and> password e = ''P@ssw0rd1''))))"
proof -
  have js: "json_loads toy_lib (json_dumps toy_lib
               [(''github'', [(''alice'', \<lparr>password = ''P@ssw0rd1'', url = [], notes = [],
                   date_modified = ''2024-01-01''\<rparr>)])])
             = Some [(''github'', [(''alice'', \<lparr>password = ''P@ssw0rd1'', url = [], notes = [],
                   date_modified = ''2024-01-01''\<rparr>)])]"
    by code_simp
  have k: "length (pbkdf2_hmac toy_lib ''correct-horse'' ex_salt) = 32"
    by (simp add: toy_lib_def length_toy_kdf)
  have bc: "block_cipher_ok toy_lib (pbkdf2_hmac toy_lib ''correct-horse'' ex_salt)"
    using k by (intro toy_block_cipher_ok) simp
  have l: "length ex_salt = 16" "length ex_iv = 16"
    by (simp_all add: ex_salt_def ex_iv_def)
  show ?thesis
    using unlock_after_persist [where L = toy_lib and rs = ex_salt and ri = ex_iv and io = WriteOk
        and P = "''correct-horse''" and fl = None and rnd = "\<lambda>i. i" and today = "''2024-01-01''"
        and service = "''github''" and username = "''alice''" and pw = "''P@ssw0rd1''"
        and u = "[]" and n = "[]" and rs' = ex_iv and ri' = ex_salt and io' = WriteOk,
        OF _ l k bc js]
    by (auto split: prod.splits)
qed

section \<open>Failed unlock\<close>

lemma load_vault_result:
  "fst (load_vault L content P s) \<longleftrightarrow> \<not> load_fails L content P"
  by (simp add: load_vault_def load_fails_def derive_key_def Let_def
      split: sum.splits option.splits)

lemma load_vault_initialized:
  "initialized (snd (load_vault L content P s)) \<longleftrightarrow> \<not> load_fails L content P"
  by (simp add: load_vault_def load_fails_def derive_key_def Let_def
      split: sum.splits option.splits)

lemma initialize_loads:
  assumes "content \<noteq> []"
  shows "initialize L rs ri ReadOk io P s (Some content) =
           (Returned PyNone, snd (load_vault L content P s), Some content)"
  using assms by (simp add: initialize_def Let_def split: prod.splits)

lemma get_password_locked: "\<not> initialized s \<Longrightarrow> get_password s sv u = None"
  by (simp add: get_password_def)

text \<open>
  C2, as the code has it. On an existing non-empty container that is read
  successfully, \<open>initialize\<close> raises nothing and returns \<open>None\<close>, and the
  container is left as it was. The store ends unlocked exactly when decryption
  and parsing succeed; when the decryption raises (bad length, padding) or the
  plaintext does not parse, the failure is caught, the store is locked and
  every \<open>get_password\<close> gives \<open>None\<close>. The failure is reported through the
  \<open>initialized\<close> attribute, not through the result.
\<close>

theorem initialize_failure_locks:
  assumes "content \<noteq> []"
  shows "(case initialize L rs ri ReadOk io P s (Some content) of
            (r, s', f') \<Rightarrow>
              r = Returned PyNone
              \<and> f' = Some content
              \<and> (initialized s' \<longleftrightarrow> \<not> load_fails L content P)
              \<and> (load_fails L content P \<longrightarrow> (\<forall>sv u. get_password s' sv u = None)))"
  using assms
  by (simp add: initialize_loads load_vault_initialized get_password_locked)

theorem initialize_failure_locks_witness:
  "fst (initialize toy_lib ex_salt ex_iv ReadOk WriteOk ''wrong-password'' init_state
          (Some ex_container)) = Returned PyNone
   \<and> \<not> initialized (fst (snd (initialize toy_lib ex_salt ex_iv ReadOk WriteOk ''wrong-password''
          init_state (Some ex_container))))
   \<and> get_password (fst (snd (initialize toy_lib ex_salt ex_iv ReadOk WriteOk ''wrong-password''
          init_state (Some ex_container)))) ''github'' ''alice'' = None"
proof -
  have ne: "ex_container \<noteq> []"
    by (simp add: ex_container_def ex_salt_def)
  have lf: "load_fails toy_lib ex_container ''wrong-password''"
    by code_simp
  show ?thesis
    using initialize_failure_locks [where L = toy_lib and rs = ex_salt and ri = ex_iv
        and io = WriteOk and P = "''wrong-password''" and s = init_state
        and content = ex_container, OF ne] lf
    by (auto split: prod.splits)
qed

text \<open>
  With the wrong password on the container of \<open>ex_state\<close> the load fails and
  \<open>initialize\<close> returns \<open>None\<close>, not \<open>False\<close>, as it does with the right
  password; when reading the container fails, the exception reaches the
  caller.
\<close>

theorem initialize_failure_not_false:
  "load_fails toy_lib ex_container ''wrong-password''
   \<and> fst (initialize toy_lib ex_salt ex_iv ReadOk WriteOk ''wrong-password'' init_state
          (Some ex_container)) = Returned PyNone
   \<and> fst (initialize toy_lib ex_salt ex_iv ReadOk WriteOk ''wrong-password'' init_state
          (Some ex_container)) \<noteq> Returned (PyBool False)
   \<and> fst (initialize toy_lib ex_salt ex_iv ReadOk WriteOk ''correct-horse'' init_state
          (Some ex_container)) = Returned PyNone
   \<and> fst (initialize toy_lib ex_salt ex_iv ReadFails WriteOk ''correct-horse'' init_state
          (Some ex_container)) = Raised OSError"
  by code_simp

section \<open>Strength scorer on repeated characters\<close>

lemma re_search_repeat_needs_backslash:
  "CHR 0x5C \<notin> set pw \<Longrightarrow> \<not> re_search_repeat pw"
  by (induction pw rule: re_search_repeat.induct) auto

lemma re_search_repeat_literal: "re_search_repeat [CHR ''a'', CHR 0x5C, CHR ''1'', CHR ''1'']"
  by simp

text \<open>
  C6. On \<open>"aaaaaaaa"\<close>, a run of eight identical characters, the scorer gives
  15 points for the length and 10 for the lowercase class, takes nothing off,
  and its feedback names the three missing classes only: the pattern of the
  repeated-character check matches a character followed by a backslash and
  \<open>11\<close>, so no run of identical characters triggers it.
\<close>

theorem repeated_run_not_penalised:
  "check_password_strength ''aaaaaaaa'' =
     (25, ''Very Weak'', [''Add uppercase letters'', ''Add numbers'', ''Add special characters''])"
  by code_simp

section \<open>Empty services\<close>






end
